theory Spec2Isabelle
  imports Complex_Main "HOL-Library.Log_Nat" "HOL-Library.Monad_Syntax"
begin

section \<open>Machine arithmetic of the program\<close>

subsection \<open>The C++ type \<open>int\<close>\<close>

text \<open>
  \<open>int\<close> is a 32-bit two's complement integer. Signed overflow has no defined
  result in C++: an operation whose mathematical result leaves the range is modelled
  as \<open>None\<close>, and so is every other operation the language leaves undefined.
\<close>

definition INT_MIN :: int where
  "INT_MIN = - (2 ^ 31)"

definition INT_MAX :: int where
  "INT_MAX = 2 ^ 31 - 1"

definition int_range :: "int \<Rightarrow> bool" where
  "int_range x \<longleftrightarrow> INT_MIN \<le> x \<and> x \<le> INT_MAX"

definition int_result :: "int \<Rightarrow> int option" where
  "int_result x = (if int_range x then Some x else None)"

text \<open>\<open>std::clamp(v, lo, hi)\<close>: undefined when \<open>hi < lo\<close>.\<close>

definition clamp :: "int \<Rightarrow> int \<Rightarrow> int \<Rightarrow> int option" where
  "clamp v lo hi = (if hi < lo then None else Some (if v < lo then lo else if hi < v then hi else v))"

subsection \<open>The C++ type \<open>double\<close>\<close>

text \<open>
  A finite \<open>double\<close> is modelled by the rational number it denotes. Every arithmetic
  operation returns the exact result rounded to 53 significant bits, to nearest, ties to
  the even significand (the IEEE 754 default). The exponent range is left unbounded:
  the program only divides and multiplies values made from 32-bit integers, whose
  magnitudes stay between \<open>2 ^ -32\<close> and \<open>2 ^ 64\<close>, far inside the normal range
  of the format. It divides by the total density only after it has found it positive, so
  no infinity and no NaN arises.
\<close>

type_synonym double = rat

text \<open>Rounding to an integer, ties to even.\<close>

definition round_half_even :: "rat \<Rightarrow> int" where
  "round_half_even x =
     (let f = \<lfloor>x\<rfloor>; d = x - of_int f
      in if d < 1 / 2 then f else if 1 / 2 < d then f + 1 else if even f then f else f + 1)"

text \<open>The binary exponent of a positive rational: \<open>2 powi e \<le> x < 2 powi (e + 1)\<close>.\<close>

definition binary_exponent :: "rat \<Rightarrow> int" where
  "binary_exponent x =
     (let (p, q) = quotient_of x;
          d = int (floorlog 2 (nat p)) - int (floorlog 2 (nat q))
      in if 2 powi d \<le> x then d else d - 1)"

text \<open>The \<open>double\<close> nearest to a rational.\<close>

definition to_double :: "rat \<Rightarrow> double" where
  "to_double x =
     (if x = 0 then 0
      else let a = \<bar>x\<bar>; e = binary_exponent a; m = round_half_even (a * 2 powi (52 - e))
           in sgn x * of_int m * 2 powi (e - 52))"

definition double_of_int :: "int \<Rightarrow> double" where
  "double_of_int n = to_double (of_int n)"

definition double_add :: "double \<Rightarrow> double \<Rightarrow> double" where
  "double_add a b = to_double (a + b)"

definition double_div :: "double \<Rightarrow> double \<Rightarrow> double" where
  "double_div a b = to_double (a / b)"

definition double_mul :: "double \<Rightarrow> double \<Rightarrow> double" where
  "double_mul a b = to_double (a * b)"

text \<open>\<open>round\<close> of the C library: to the nearest integer, halfway cases away from zero.\<close>

definition c_round :: "double \<Rightarrow> double" where
  "c_round x = (if 0 \<le> x then of_int \<lfloor>x + 1 / 2\<rfloor> else - of_int \<lfloor>- x + 1 / 2\<rfloor>)"

text \<open>The cast of a \<open>double\<close> to \<open>int\<close>: truncation, undefined outside the range of \<open>int\<close>.\<close>

definition int_of_double :: "double \<Rightarrow> int option" where
  "int_of_double x = int_result (if 0 \<le> x then \<lfloor>x\<rfloor> else \<lceil>x\<rceil>)"

section \<open>Data model\<close>

datatype LightState = RED | GREEN | YELLOW

record TrafficLight =
  name :: string
  state :: LightState
  green_duration :: int
  yellow_duration :: int
  red_duration :: int

definition TrafficLight_new :: "string \<Rightarrow> TrafficLight" where
  "TrafficLight_new n =
     \<lparr>name = n, state = RED, green_duration = 10, yellow_duration = 3, red_duration = 0\<rparr>"

fun state_to_string :: "LightState \<Rightarrow> string" where
  "state_to_string RED = ''RED''"
| "state_to_string GREEN = ''GREEN''"
| "state_to_string YELLOW = ''YELLOW''"

record IntersectionController =
  ns :: TrafficLight
  ew :: TrafficLight
  min_green :: int
  max_green :: int
  yellow_time :: int
  all_red_time :: int
  cycles :: int
  realtime_delay :: bool

definition IntersectionController_new ::
  "int \<Rightarrow> int \<Rightarrow> int \<Rightarrow> int \<Rightarrow> int \<Rightarrow> bool \<Rightarrow> IntersectionController" where
  "IntersectionController_new minG maxG yellow allred cycles0 realtime =
     (let c = \<lparr>ns = TrafficLight_new ''North-South'', ew = TrafficLight_new ''East-West'',
                min_green = minG, max_green = maxG, yellow_time = yellow,
                all_red_time = allred, cycles = cycles0, realtime_delay = realtime\<rparr>;
          c = c\<lparr>ns := (ns c)\<lparr>yellow_duration := yellow_time c\<rparr>\<rparr>;
          c = c\<lparr>ew := (ew c)\<lparr>yellow_duration := yellow_time c\<rparr>\<rparr>
      in c)"

section \<open>Duration allocation\<close>

definition compute_and_set_green ::
  "int \<Rightarrow> int \<Rightarrow> IntersectionController \<Rightarrow> IntersectionController option" where
  "compute_and_set_green ns_density ew_density c =
     (let nsd = double_of_int ns_density;
          ewd = double_of_int ew_density;
          total = double_add nsd ewd
      in if total \<le> 0
         then (let c = c\<lparr>ns := (ns c)\<lparr>green_duration := min_green c\<rparr>\<rparr>;
                   c = c\<lparr>ew := (ew c)\<lparr>green_duration := min_green c\<rparr>\<rparr>
               in Some c)
         else do {
           let base = min_green c;
           extra_budget \<leftarrow> int_result (max_green c - min_green c);
           ns_share \<leftarrow> int_of_double
             (c_round (double_mul (double_div nsd total) (double_of_int extra_budget)));
           ns_green \<leftarrow> int_result (base + ns_share);
           let c = c\<lparr>ns := (ns c)\<lparr>green_duration := ns_green\<rparr>\<rparr>;
           ew_share \<leftarrow> int_of_double
             (c_round (double_mul (double_div ewd total) (double_of_int extra_budget)));
           ew_green \<leftarrow> int_result (base + ew_share);
           let c = c\<lparr>ew := (ew c)\<lparr>green_duration := ew_green\<rparr>\<rparr>;
           ns_clamped \<leftarrow> clamp (green_duration (ns c)) (min_green c) (max_green c);
           let c = c\<lparr>ns := (ns c)\<lparr>green_duration := ns_clamped\<rparr>\<rparr>;
           ew_clamped \<leftarrow> clamp (green_duration (ew c)) (min_green c) (max_green c);
           let c = c\<lparr>ew := (ew c)\<lparr>green_duration := ew_clamped\<rparr>\<rparr>;
           let c = c\<lparr>ns := (ns c)\<lparr>yellow_duration := yellow_time c\<rparr>\<rparr>;
           let c = c\<lparr>ew := (ew c)\<lparr>yellow_duration := yellow_time c\<rparr>\<rparr>;
           Some c
         })"

text \<open>
  The allocation as a function of the densities and the bounds alone: the pair of green
  durations it leaves in the lights of a controller with these bounds.
\<close>

definition allocate :: "int \<Rightarrow> int \<Rightarrow> int \<Rightarrow> int \<Rightarrow> (int \<times> int) option" where
  "allocate ns_density ew_density minG maxG =
     map_option (\<lambda>c. (green_duration (ns c), green_duration (ew c)))
       (compute_and_set_green ns_density ew_density
          (IntersectionController_new minG maxG 3 1 5 True))"

section \<open>Console output\<close>

text \<open>What the program does to the outside: text written to \<open>cout\<close>, and sleeping.\<close>

datatype effect = Stdout string | SleepFor int

definition digit_char :: "nat \<Rightarrow> char" where
  "digit_char d = char_of (48 + d)"

fun decimal :: "nat \<Rightarrow> string" where
  "decimal n = (if n < 10 then [digit_char n] else decimal (n div 10) @ [digit_char (n mod 10)])"

declare decimal.simps [simp del]

text \<open>\<open>cout << i\<close> for an \<open>int\<close>.\<close>

definition string_of_int :: "int \<Rightarrow> string" where
  "string_of_int i = (if i < 0 then CHR ''-'' # decimal (nat (- i)) else decimal (nat i))"

text \<open>\<open>setw(w)\<close> before a string: padded with spaces on the left up to the width.\<close>

definition setw :: "nat \<Rightarrow> string \<Rightarrow> string" where
  "setw w s = replicate (w - length s) CHR '' '' @ s"

text \<open>
  The local time \<open>localtime_r\<close> returns, of which \<open>strftime\<close> prints hour, minute
  and second, each as two decimal digits.
\<close>

record tm =
  tm_hour :: nat
  tm_min :: nat
  tm_sec :: nat

definition two_digits :: "nat \<Rightarrow> string" where
  "two_digits n = [digit_char (n div 10 mod 10), digit_char (n mod 10)]"

definition current_time_str :: "tm \<Rightarrow> string" where
  "current_time_str local_tm =
     two_digits (tm_hour local_tm) @ '':'' @ two_digits (tm_min local_tm) @ '':'' @
     two_digits (tm_sec local_tm)"

definition newline :: string where
  "newline = [CHR 0x0A]"

section \<open>Phase sequencing\<close>

text \<open>
  The two lights are members of the controller, and \<open>run_phase\<close> and
  \<open>set_and_print\<close> receive them by reference.
\<close>

datatype light_ref = NS | EW

fun light :: "light_ref \<Rightarrow> IntersectionController \<Rightarrow> TrafficLight" where
  "light NS c = ns c"
| "light EW c = ew c"

fun light_update ::
  "light_ref \<Rightarrow> (TrafficLight \<Rightarrow> TrafficLight) \<Rightarrow> IntersectionController \<Rightarrow> IntersectionController" where
  "light_update NS f c = c\<lparr>ns := f (ns c)\<rparr>"
| "light_update EW f c = c\<lparr>ew := f (ew c)\<rparr>"

text \<open>
  A run is recorded statement by statement: which statement ran, what it wrote or how
  long it slept, and the controller it left behind.
\<close>

datatype stmt =
    PrintSimulating
  | PrintCycle int
  | ComputeAndSetGreen int int
  | SetAndPrint light_ref LightState
  | WaitAndPrint int
  | PrintNewline
  | PrintRandomDensities int
  | PrintFinished

record entry =
  executed :: stmt
  outs :: "effect list"
  after :: IntersectionController

text \<open>
  The state of a run: the controller, the record so far, and how often the system
  clock has been read. The clock is an input: \<open>clk k\<close> is the local time at the
  \<open>k\<close>-th reading.
\<close>

record world =
  ctl :: IntersectionController
  history :: "entry list"
  clock_reads :: nat

type_synonym clock = "nat \<Rightarrow> tm"

definition initial_world :: "IntersectionController \<Rightarrow> world" where
  "initial_world c = \<lparr>ctl = c, history = [], clock_reads = 0\<rparr>"

definition emit :: "stmt \<Rightarrow> effect list \<Rightarrow> world \<Rightarrow> world" where
  "emit s os w = w\<lparr>history := history w @ [\<lparr>executed = s, outs = os, after = ctl w\<rparr>]\<rparr>"

definition set_and_print :: "clock \<Rightarrow> light_ref \<Rightarrow> LightState \<Rightarrow> world \<Rightarrow> world" where
  "set_and_print clk tl_ref s w =
     (let w = w\<lparr>ctl := light_update tl_ref (\<lambda>l. l\<lparr>state := s\<rparr>) (ctl w)\<rparr>;
          now = current_time_str (clk (clock_reads w));
          w = w\<lparr>clock_reads := clock_reads w + 1\<rparr>;
          l = light tl_ref (ctl w);
          line = ''['' @ setw 3 now @ ''] '' @ name l @ '' -> '' @ state_to_string s @
                 '' (will last '' @
                 (if s = GREEN then string_of_int (green_duration l)
                  else if s = YELLOW then string_of_int (yellow_duration l)
                  else ''until other gets green'') @
                 ''s)'' @ newline
      in emit (SetAndPrint tl_ref s) [Stdout line] w)"

definition wait_and_print :: "int \<Rightarrow> world \<Rightarrow> world" where
  "wait_and_print seconds w =
     (if seconds \<le> 0 then emit (WaitAndPrint seconds) [] w
      else if realtime_delay (ctl w) then emit (WaitAndPrint seconds) [SleepFor seconds] w
      else emit (WaitAndPrint seconds)
             [Stdout (''   (simulated '' @ string_of_int seconds @ ''s)'' @ newline)] w)"

definition run_phase :: "clock \<Rightarrow> light_ref \<Rightarrow> light_ref \<Rightarrow> world \<Rightarrow> world" where
  "run_phase clk firstGreen second w =
     (let w = set_and_print clk firstGreen GREEN w;
          w = wait_and_print (green_duration (light firstGreen (ctl w))) w;
          w = set_and_print clk firstGreen YELLOW w;
          w = wait_and_print (yellow_duration (light firstGreen (ctl w))) w;
          w = set_and_print clk firstGreen RED w;
          w = wait_and_print (all_red_time (ctl w)) w;
          w = set_and_print clk second GREEN w;
          w = wait_and_print (green_duration (light second (ctl w))) w;
          w = set_and_print clk second YELLOW w;
          w = wait_and_print (yellow_duration (light second (ctl w))) w;
          w = set_and_print clk second RED w;
          w = wait_and_print (all_red_time (ctl w)) w
      in w)"

text \<open>One pass of the loop body of \<open>simulate_with_inputs\<close>, the counter at \<open>c\<close>.\<close>

definition cycle :: "clock \<Rightarrow> int \<Rightarrow> int \<Rightarrow> int \<Rightarrow> world \<Rightarrow> world option" where
  "cycle clk ns_density ew_density c w =
     do {
       let w = emit (PrintCycle c) [Stdout (''=== Cycle '' @ string_of_int c @ '' ==='' @ newline)] w;
       c' \<leftarrow> compute_and_set_green ns_density ew_density (ctl w);
       let w = emit (ComputeAndSetGreen ns_density ew_density) [] (w\<lparr>ctl := c'\<rparr>);
       let w = run_phase clk NS EW w;
       let w = emit PrintNewline [Stdout newline] w;
       Some w
     }"

text \<open>
  The loop \<open>for (int c = 1; c <= cycles; ++c)\<close>. The increment of the counter is
  an \<open>int\<close> addition like any other: with \<open>cycles = INT_MAX\<close> the test never
  fails and the increment after the last cycle overflows.
\<close>

function simulate_loop :: "clock \<Rightarrow> int \<Rightarrow> int \<Rightarrow> int \<Rightarrow> world \<Rightarrow> world option" where
  "simulate_loop clk ns_density ew_density c w =
     (if c \<le> cycles (ctl w)
      then do {
        w \<leftarrow> cycle clk ns_density ew_density c w;
        c \<leftarrow> int_result (c + 1);
        simulate_loop clk ns_density ew_density c w
      }
      else Some w)"
  by pat_completeness auto
termination
  by (relation "measure (\<lambda>(clk, ns_density, ew_density, c, w). nat (INT_MAX + 1 - c))")
     (auto simp: int_result_def int_range_def split: if_splits)

declare simulate_loop.simps [simp del]

definition simulate_with_inputs :: "clock \<Rightarrow> int \<Rightarrow> int \<Rightarrow> world \<Rightarrow> world option" where
  "simulate_with_inputs clk ns_density ew_density w =
     (let w = emit PrintSimulating
                [Stdout (newline @ ''Simulating '' @ string_of_int (cycles (ctl w)) @
                         '' cycles with densities: NS='' @ string_of_int ns_density @
                         ''  EW='' @ string_of_int ew_density @ newline @ newline)] w
      in simulate_loop clk ns_density ew_density 1 w)"

section \<open>The program\<close>

text \<open>
  \<open>main\<close> from the construction of the controller on. The prompts and the reading of
  the answers are left out; their values are the arguments. \<open>rng k\<close> is the \<open>k\<close>-th
  number the uniform distribution over \<open>[0, 100]\<close> hands out.
\<close>

type_synonym random_source = "nat \<Rightarrow> int"

text \<open>The loop \<open>for (int c = 0; c < cycles; ++c)\<close> of the random mode.\<close>

function random_loop :: "clock \<Rightarrow> random_source \<Rightarrow> int \<Rightarrow> int \<Rightarrow> world \<Rightarrow> world option" where
  "random_loop clk rng cycles0 c w =
     (if c < cycles0
      then do {
        let ns_d = rng (2 * nat c);
        let ew_d = rng (2 * nat c + 1);
        let w = emit (PrintRandomDensities (c + 1))
                  [Stdout (newline @ ''--- Random densities for cycle '' @ string_of_int (c + 1) @
                           '' ---'' @ newline)] w;
        w \<leftarrow> simulate_with_inputs clk ns_d ew_d w;
        random_loop clk rng cycles0 (c + 1) w
      }
      else Some w)"
  by pat_completeness auto
termination
  by (relation "measure (\<lambda>(clk, rng, cycles0, c, w). nat (cycles0 - c))") auto

declare random_loop.simps [simp del]

definition main_from_inputs ::
  "clock \<Rightarrow> random_source \<Rightarrow> int \<Rightarrow> int \<Rightarrow> bool \<Rightarrow> int \<Rightarrow> int \<Rightarrow> world option" where
  "main_from_inputs clk rng cycles0 mode realtime ns_d ew_d =
     do {
       let w = initial_world (IntersectionController_new 5 40 3 1 cycles0 realtime);
       w \<leftarrow> (if mode = 1 then simulate_with_inputs clk ns_d ew_d w
             else random_loop clk rng cycles0 0 w);
       Some (emit PrintFinished [Stdout (newline @ ''Simulation finished.'' @ newline)] w)
     }"

section \<open>Notions of the specification\<close>

text \<open>
  The configurations and densities the specification admits: \<open>max_green \<ge> min_green \<ge> 0\<close>,
  densities non-negative; all of them values of type \<open>int\<close>.
\<close>

definition valid_configuration :: "IntersectionController \<Rightarrow> bool" where
  "valid_configuration c \<longleftrightarrow>
     0 \<le> min_green c \<and> min_green c \<le> max_green c \<and> int_range (max_green c)"

definition valid_density :: "int \<Rightarrow> bool" where
  "valid_density d \<longleftrightarrow> 0 \<le> d \<and> int_range d"

text \<open>The allocation as the specification words it, in exact arithmetic, for a given rounding.\<close>

definition round_half_away :: "rat \<Rightarrow> int" where
  "round_half_away x = (if 0 \<le> x then \<lfloor>x + 1 / 2\<rfloor> else - \<lfloor>- x + 1 / 2\<rfloor>)"

definition spec_allocate :: "(rat \<Rightarrow> int) \<Rightarrow> int \<Rightarrow> int \<Rightarrow> int \<Rightarrow> int \<Rightarrow> int \<times> int" where
  "spec_allocate rounding ns_density ew_density minG maxG =
     (if ns_density + ew_density = 0 then (minG, minG)
      else let extra_budget = maxG - minG;
               total_density = ns_density + ew_density;
               green = (\<lambda>density.
                 minG + rounding (of_int density / of_int total_density * of_int extra_budget));
               clamped = (\<lambda>g. max minG (min maxG g))
           in (clamped (green ns_density), clamped (green ew_density)))"

text \<open>The share of the extra budget as the program computes it, in \<open>double\<close> arithmetic.\<close>

definition share_in_double :: "int \<Rightarrow> int \<Rightarrow> int \<Rightarrow> int" where
  "share_in_double density total_density extra_budget =
     \<lfloor>double_mul (double_div (of_int density) (of_int total_density)) (of_int extra_budget)
        + 1 / 2\<rfloor>"

text \<open>An integer nearest to a rational; at an exact tie both neighbours are.\<close>

definition nearest_integer :: "int \<Rightarrow> rat \<Rightarrow> bool" where
  "nearest_integer r x \<longleftrightarrow> \<bar>of_int r - x\<bar> \<le> 1 / 2"

text \<open>Properties of a controller state.\<close>

definition at_rest :: "IntersectionController \<Rightarrow> bool" where
  "at_rest c \<longleftrightarrow> state (ns c) = RED \<and> state (ew c) = RED"

definition one_direction_at_most :: "IntersectionController \<Rightarrow> bool" where
  "one_direction_at_most c \<longleftrightarrow> state (ns c) = RED \<or> state (ew c) = RED"

definition green_in_bounds :: "IntersectionController \<Rightarrow> bool" where
  "green_in_bounds c \<longleftrightarrow>
     min_green c \<le> green_duration (ns c) \<and> green_duration (ns c) \<le> max_green c \<and>
     min_green c \<le> green_duration (ew c) \<and> green_duration (ew c) \<le> max_green c"

definition yellow_fixed :: "IntersectionController \<Rightarrow> bool" where
  "yellow_fixed c \<longleftrightarrow>
     yellow_duration (ns c) = yellow_time c \<and> yellow_duration (ew c) = yellow_time c"

text \<open>Projections of the record of a run.\<close>

definition statements :: "world \<Rightarrow> stmt list" where
  "statements w = map executed (history w)"

fun allocation_of :: "stmt \<Rightarrow> (int \<times> int) list" where
  "allocation_of (ComputeAndSetGreen a b) = [(a, b)]"
| "allocation_of _ = []"

definition allocations :: "world \<Rightarrow> (int \<times> int) list" where
  "allocations w = concat (map allocation_of (statements w))"

fun transition_of :: "stmt \<Rightarrow> (light_ref \<times> LightState) list" where
  "transition_of (SetAndPrint r s) = [(r, s)]"
| "transition_of _ = []"

definition transitions :: "world \<Rightarrow> (light_ref \<times> LightState) list" where
  "transitions w = concat (map transition_of (statements w))"

text \<open>
  The record as pairs of a statement and the controller it left, and the part of it that
  was written between two moments of a run.
\<close>

definition trace :: "world \<Rightarrow> (stmt \<times> IntersectionController) list" where
  "trace w = map (\<lambda>x. (executed x, after x)) (history w)"

definition since :: "world \<Rightarrow> world \<Rightarrow> (stmt \<times> IntersectionController) list" where
  "since w w' = drop (length (trace w)) (trace w')"

text \<open>The record from the first allocation on.\<close>

definition from_first_allocation ::
  "(stmt \<times> IntersectionController) list \<Rightarrow> (stmt \<times> IntersectionController) list" where
  "from_first_allocation t = dropWhile (\<lambda>(s, c). allocation_of s = []) t"

text \<open>
  A light is switched to green only in a state where both lights are red: \<open>c\<close> is the
  controller before the first statement of the record.
\<close>

fun green_only_from_rest ::
  "IntersectionController \<Rightarrow> (stmt \<times> IntersectionController) list \<Rightarrow> bool" where
  "green_only_from_rest c [] = True"
| "green_only_from_rest c ((s, c') # t) =
     ((case s of SetAndPrint r GREEN \<Rightarrow> at_rest c | _ \<Rightarrow> True) \<and> green_only_from_rest c' t)"

text \<open>The controller with one light switched to a phase.\<close>

definition with_phase :: "light_ref \<Rightarrow> LightState \<Rightarrow> IntersectionController \<Rightarrow> IntersectionController" where
  "with_phase r s c = light_update r (\<lambda>l. l\<lparr>state := s\<rparr>) c"

text \<open>
  The record one cycle is expected to write: \<open>c\<close> is the controller at its start,
  \<open>c'\<close> the controller after the allocation, \<open>k\<close> the cycle counter.
\<close>

definition cycle_trace ::
  "int \<Rightarrow> int \<Rightarrow> int \<Rightarrow> IntersectionController \<Rightarrow> IntersectionController \<Rightarrow>
   (stmt \<times> IntersectionController) list" where
  "cycle_trace ns_density ew_density k c c' =
     [(PrintCycle k, c),
      (ComputeAndSetGreen ns_density ew_density, c'),
      (SetAndPrint NS GREEN, with_phase NS GREEN c'),
      (WaitAndPrint (green_duration (ns c')), with_phase NS GREEN c'),
      (SetAndPrint NS YELLOW, with_phase NS YELLOW c'),
      (WaitAndPrint (yellow_duration (ns c')), with_phase NS YELLOW c'),
      (SetAndPrint NS RED, with_phase NS RED c'),
      (WaitAndPrint (all_red_time c'), with_phase NS RED c'),
      (SetAndPrint EW GREEN, with_phase EW GREEN (with_phase NS RED c')),
      (WaitAndPrint (green_duration (ew c')), with_phase EW GREEN (with_phase NS RED c')),
      (SetAndPrint EW YELLOW, with_phase EW YELLOW (with_phase NS RED c')),
      (WaitAndPrint (yellow_duration (ew c')), with_phase EW YELLOW (with_phase NS RED c')),
      (SetAndPrint EW RED, with_phase EW RED (with_phase NS RED c')),
      (WaitAndPrint (all_red_time c'), with_phase EW RED (with_phase NS RED c')),
      (PrintNewline, with_phase EW RED (with_phase NS RED c'))]"

text \<open>The phases of the two lights, North-South first.\<close>

definition phases :: "IntersectionController \<Rightarrow> LightState \<times> LightState" where
  "phases c = (state (ns c), state (ew c))"

text \<open>Whether the green durations were within the bounds, point by point of the record.\<close>

definition bounds_record :: "world \<Rightarrow> bool list" where
  "bounds_record w = map (green_in_bounds \<circ> after) (history w)"

text \<open>
  The line of a phase transition as the specification gives it,
  \<open>[HH:MM:SS] <direction> -> <PHASE> (will last <N>s)\<close>, for a light and the phase
  it is switched to.
\<close>

definition transition_line :: "tm \<Rightarrow> TrafficLight \<Rightarrow> LightState \<Rightarrow> string" where
  "transition_line now l s =
     ''['' @ current_time_str now @ ''] '' @ name l @ '' -> '' @ state_to_string s @
     '' (will last '' @
     (case s of
        GREEN \<Rightarrow> string_of_int (green_duration l)
      | YELLOW \<Rightarrow> string_of_int (yellow_duration l)
      | RED \<Rightarrow> ''until other gets green'') @
     ''s)'' @ newline"

text \<open>
  What a wait of some seconds does to the outside: nothing when the seconds are not
  positive, else a sleep in real-time mode and a line in fast mode.
\<close>

definition waited :: "bool \<Rightarrow> int \<Rightarrow> effect list" where
  "waited realtime seconds =
     (if seconds \<le> 0 then []
      else if realtime then [SleepFor seconds]
      else [Stdout (''   (simulated '' @ string_of_int seconds @ ''s)'' @ newline)])"

text \<open>
  The phase changes along a sequence of controller states, \<open>c\<close> the state before the
  first: which light shows another phase than in the state before, and the phase it
  shows now. They are read off the states, not off the statements.
\<close>

fun phase_changes ::
  "IntersectionController \<Rightarrow> IntersectionController list \<Rightarrow> (light_ref \<times> LightState) list" where
  "phase_changes c [] = []"
| "phase_changes c (c' # cs) =
     (if state (ns c') \<noteq> state (ns c) then [(NS, state (ns c'))] else []) @
     (if state (ew c') \<noteq> state (ew c) then [(EW, state (ew c'))] else []) @
     phase_changes c' cs"

text \<open>
  The phase-transition events of a record: the entries that changed a phase, each with
  the change and with what the program wrote or slept at that entry.
\<close>

fun phase_events ::
  "IntersectionController \<Rightarrow> entry list \<Rightarrow> ((light_ref \<times> LightState) \<times> effect list) list" where
  "phase_events c [] = []"
| "phase_events c (x # xs) =
     map (\<lambda>p. (p, outs x)) (phase_changes c [after x]) @ phase_events (after x) xs"

text \<open>
  The entries written between two moments of a run, and the statements with their
  effects on the outside among them.
\<close>

definition entries_since :: "world \<Rightarrow> world \<Rightarrow> entry list" where
  "entries_since w w' = drop (length (history w)) (history w')"

definition output_since :: "world \<Rightarrow> world \<Rightarrow> (stmt \<times> effect list) list" where
  "output_since w w' = map (\<lambda>x. (executed x, outs x)) (entries_since w w')"

text \<open>Inputs for concrete runs: a clock that stands at 09:05:07, and a source of numbers.\<close>

definition stopped_clock :: clock where
  "stopped_clock k = \<lparr>tm_hour = 9, tm_min = 5, tm_sec = 7\<rparr>"

definition sample_numbers :: random_source where
  "sample_numbers k = 10 * (int (k mod 4) + 1)"

section \<open>Rounding to \<open>double\<close>\<close>

lemma round_half_even_of_int: "round_half_even (of_int k) = k"
  by (simp add: round_half_even_def)

lemma round_half_even_mono: "x \<le> y \<Longrightarrow> round_half_even x \<le> round_half_even y"
proof -
  assume xy: "x \<le> y"
  have fg: "\<lfloor>x\<rfloor> \<le> \<lfloor>y\<rfloor>" using xy by (rule floor_mono)
  have a: "\<lfloor>x\<rfloor> \<le> round_half_even x" "round_half_even x \<le> \<lfloor>x\<rfloor> + 1"
    by (auto simp: round_half_even_def Let_def)
  have b: "\<lfloor>y\<rfloor> \<le> round_half_even y"
    by (auto simp: round_half_even_def Let_def)
  show ?thesis
  proof (cases "\<lfloor>x\<rfloor> = \<lfloor>y\<rfloor>")
    case True
    then show ?thesis using xy by (auto simp: round_half_even_def Let_def)
  next
    case False
    then have "\<lfloor>x\<rfloor> + 1 \<le> \<lfloor>y\<rfloor>" using fg by linarith
    then show ?thesis using a b by linarith
  qed
qed

lemma round_half_even_err: "\<bar>of_int (round_half_even x) - x\<bar> \<le> 1 / 2"
proof -
  have "of_int \<lfloor>x\<rfloor> \<le> x" "x < of_int \<lfloor>x\<rfloor> + 1" by linarith+
  then show ?thesis by (auto simp: round_half_even_def Let_def abs_le_iff)
qed

lemma floorlog2_bounds:
  assumes "0 < p"
  shows "(2::rat) ^ (floorlog 2 (nat p) - 1) \<le> of_int p" "of_int p < (2::rat) ^ floorlog 2 (nat p)"
    "0 < floorlog 2 (nat p)"
proof -
  have pos: "0 < nat p" using assms by simp
  from floorlog_bounds [OF pos, of 2]
  have b: "2 ^ (floorlog 2 (nat p) - 1) \<le> nat p" "nat p < 2 ^ floorlog 2 (nat p)" by simp_all
  have "(of_nat (2 ^ (floorlog 2 (nat p) - 1)) :: rat) \<le> of_nat (nat p)"
    using b(1) of_nat_le_iff by blast
  then show "(2::rat) ^ (floorlog 2 (nat p) - 1) \<le> of_int p" using assms by simp
  have "(of_nat (nat p) :: rat) < of_nat (2 ^ floorlog 2 (nat p))"
    using b(2) of_nat_less_iff by blast
  then show "of_int p < (2::rat) ^ floorlog 2 (nat p)" using assms by simp
  show "0 < floorlog 2 (nat p)" using pos by (simp add: floorlog_eq_zero_iff Suc_le_eq flip: not_le)
qed

lemma binary_exponent_bounds:
  assumes "0 < x"
  shows "2 powi binary_exponent x \<le> x" and "x < 2 powi (binary_exponent x + 1)"
proof -
  obtain p q where pq: "quotient_of x = (p, q)" by (cases "quotient_of x")
  have q: "0 < q" using pq by (rule quotient_of_denom_pos)
  have x: "x = of_int p / of_int q" using pq by (rule quotient_of_div)
  have p: "0 < p" using assms q unfolding x by (simp add: zero_less_divide_iff)
  define bp where "bp = floorlog 2 (nat p)"
  define bq where "bq = floorlog 2 (nat q)"
  define d where "d = int bp - int bq"
  note P = floorlog2_bounds [OF p, folded bp_def]
  note Q = floorlog2_bounds [OF q, folded bq_def]
  have e: "binary_exponent x = (if 2 powi d \<le> x then d else d - 1)"
    by (simp add: binary_exponent_def pq d_def bp_def bq_def)
  have qr: "(0::rat) < of_int q" using q by simp
  have low: "2 powi (d - 1) \<le> x"
  proof -
    have "d - 1 = int (bp - 1) - int bq" using P(3) by (simp add: d_def of_nat_diff)
    then have "(2::rat) powi (d - 1) = 2 ^ (bp - 1) / 2 ^ bq"
      by (simp add: power_int_diff)
    also have "\<dots> \<le> of_int p / 2 ^ bq" using P(1) by (simp add: divide_right_mono)
    also have "\<dots> \<le> of_int p / of_int q"
      using Q(2) p qr by (intro divide_left_mono) (auto simp: less_imp_le)
    finally show ?thesis by (simp add: x)
  qed
  have up: "x < 2 powi (d + 1)"
  proof -
    have "d + 1 = int bp - int (bq - 1)" using Q(3) by (simp add: d_def of_nat_diff)
    then have eq: "(2::rat) powi (d + 1) = 2 ^ bp / 2 ^ (bq - 1)"
      by (simp add: power_int_diff)
    have "of_int p / of_int q < (2::rat) ^ bp / of_int q"
      using P(2) qr by (simp add: divide_strict_right_mono)
    also have "\<dots> \<le> 2 ^ bp / 2 ^ (bq - 1)"
      using Q(1) qr by (intro divide_left_mono) (auto simp: zero_less_mult_iff)
    finally show ?thesis by (simp add: x eq)
  qed
  show "2 powi binary_exponent x \<le> x" using low by (simp add: e)
  show "x < 2 powi (binary_exponent x + 1)"
    using up by (auto simp: e not_le)
qed

lemma to_double_pos:
  assumes "0 < x"
  shows "to_double x =
    of_int (round_half_even (x * 2 powi (52 - binary_exponent x))) * 2 powi (binary_exponent x - 52)"
  using assms by (simp add: to_double_def Let_def)

lemma to_double_nonneg: "0 \<le> x \<Longrightarrow> 0 \<le> to_double x"
proof -
  assume "0 \<le> x"
  show ?thesis
  proof (cases "x = 0")
    case True
    then show ?thesis by (simp add: to_double_def)
  next
    case False
    then have x: "0 < x" using \<open>0 \<le> x\<close> by simp
    have "0 \<le> x * 2 powi (52 - binary_exponent x)" using x by simp
    then have "round_half_even 0 \<le> round_half_even (x * 2 powi (52 - binary_exponent x))"
      by (rule round_half_even_mono)
    moreover have "round_half_even 0 = 0" using round_half_even_of_int [of 0] by simp
    ultimately show ?thesis by (simp add: to_double_pos [OF x])
  qed
qed

lemma binary_exponent_le_52:
  assumes "0 < x" "x \<le> of_int k" "k \<le> 2 ^ 52"
  shows "binary_exponent x \<le> 52"
proof -
  have "(2::rat) powi binary_exponent x \<le> x" using assms(1) by (rule binary_exponent_bounds)
  also have "\<dots> \<le> of_int k" by fact
  also have "\<dots> \<le> of_int (2 ^ 52)" using assms(3) of_int_le_iff by blast
  finally have "(2::rat) powi binary_exponent x \<le> 2 powi 52" by simp
  then show ?thesis by (rule power_int_le_imp_le_exp [rotated]) simp_all
qed

lemma to_double_le_int:
  assumes "0 < x" "x \<le> of_int k" "k \<le> 2 ^ 52"
  shows "to_double x \<le> of_int k"
proof -
  define n where "n = nat (52 - binary_exponent x)"
  have e: "binary_exponent x \<le> 52" using assms by (rule binary_exponent_le_52)
  then have s: "52 - binary_exponent x = int n" "binary_exponent x - 52 = - int n"
    by (simp_all add: n_def)
  have "x * 2 ^ n \<le> of_int (k * 2 ^ n)" using assms(2) by simp
  then have "round_half_even (x * 2 ^ n) \<le> round_half_even (of_int (k * 2 ^ n))"
    by (rule round_half_even_mono)
  then have "round_half_even (x * 2 ^ n) \<le> k * 2 ^ n"
    by (simp only: round_half_even_of_int)
  then have "(of_int (round_half_even (x * 2 ^ n)) :: rat) \<le> of_int (k * 2 ^ n)"
    using of_int_le_iff by blast
  then have "(of_int (round_half_even (x * 2 ^ n)) :: rat) / 2 ^ n \<le> of_int k"
    by (simp add: divide_le_eq)
  then show ?thesis
    by (simp add: to_double_pos [OF assms(1)] s power_int_minus divide_inverse)
qed

lemma to_double_minus: "to_double (- x) = - to_double x"
  by (simp add: to_double_def Let_def)

lemma to_double_of_int:
  assumes "\<bar>k\<bar> \<le> 2 ^ 52"
  shows "to_double (of_int k) = of_int k"
proof -
  have pos: "to_double (of_int j) = of_int j" if "0 < j" "j \<le> 2 ^ 52" for j
  proof -
    have x: "(0::rat) < of_int j" using that by simp
    define n where "n = nat (52 - binary_exponent (of_int j))"
    have e: "binary_exponent (of_int j) \<le> 52"
      using x _ that(2) by (rule binary_exponent_le_52) simp
    then have s: "52 - binary_exponent (of_int j) = int n" "binary_exponent (of_int j) - 52 = - int n"
      by (simp_all add: n_def)
    have "round_half_even (of_int j * 2 ^ n) = j * 2 ^ n"
      using round_half_even_of_int [of "j * 2 ^ n"] by simp
    then show ?thesis
      by (simp add: to_double_pos [OF x] s power_int_minus)
  qed
  consider "k = 0" | "0 < k" | "k < 0" by linarith
  then show ?thesis
  proof cases
    case 1
    then show ?thesis by (simp add: to_double_def)
  next
    case 2
    then show ?thesis using pos assms by simp
  next
    case 3
    then have "to_double (of_int (- k)) = of_int (- k)" using pos [of "- k"] assms by simp
    then show ?thesis using to_double_minus [of "of_int k"] by simp
  qed
qed

lemma to_double_error:
  assumes "0 < x"
  shows "\<bar>to_double x - x\<bar> \<le> x / 2 ^ 53"
proof -
  define e where "e = binary_exponent x"
  define s where "s = x * 2 powi (52 - e)"
  have two: "(0::rat) < 2 powi (e - 52)" by simp
  have xs: "x = s * 2 powi (e - 52)"
    by (simp add: s_def flip: power_int_add)
  have td: "to_double x = of_int (round_half_even s) * 2 powi (e - 52)"
    by (simp add: to_double_pos [OF assms] s_def e_def)
  have "to_double x - s * 2 powi (e - 52) = (of_int (round_half_even s) - s) * 2 powi (e - 52)"
    by (simp add: td algebra_simps)
  then have "to_double x - x = (of_int (round_half_even s) - s) * 2 powi (e - 52)"
    using xs by simp
  then have "\<bar>to_double x - x\<bar> = \<bar>of_int (round_half_even s) - s\<bar> * 2 powi (e - 52)"
    by (simp add: abs_mult)
  also have "\<dots> \<le> 1 / 2 * 2 powi (e - 52)"
    using round_half_even_err [of s] two by (intro mult_right_mono) auto
  also have "\<dots> = 2 powi e / 2 ^ 53"
    by (simp add: power_int_diff)
  also have "\<dots> \<le> x / 2 ^ 53"
    using binary_exponent_bounds(1) [OF assms] by (simp add: e_def divide_right_mono)
  finally show ?thesis .
qed

section \<open>The allocation in the absence of undefined behaviour\<close>

lemma int_range_double: "int_range n \<Longrightarrow> double_of_int n = of_int n"
  by (rule to_double_of_int [folded double_of_int_def])
     (simp add: int_range_def INT_MIN_def INT_MAX_def abs_le_iff)

lemma double_add_ints:
  "int_range a \<Longrightarrow> int_range b \<Longrightarrow> double_add (of_int a) (of_int b) = of_int (a + b)"
proof -
  assume "int_range a" "int_range b"
  then have "\<bar>a + b\<bar> \<le> 2 ^ 52" by (simp add: int_range_def INT_MIN_def INT_MAX_def abs_le_iff)
  then have "to_double (of_int (a + b)) = of_int (a + b)" by (rule to_double_of_int)
  then show ?thesis by (simp add: double_add_def)
qed

lemma double_share_bounds:
  assumes "0 \<le> n" "n \<le> t" "0 < t" "0 \<le> e" "e \<le> 2 ^ 52"
  shows "0 \<le> double_mul (double_div (of_int n) (of_int t)) (of_int e)"
    and "double_mul (double_div (of_int n) (of_int t)) (of_int e) \<le> of_int e"
proof -
  define q where "q = double_div (of_int n) (of_int t)"
  have r: "(0::rat) \<le> of_int n / of_int t" "(of_int n :: rat) / of_int t \<le> 1"
    using assms by (simp_all add: divide_le_eq)
  have q0: "0 \<le> q" unfolding q_def double_div_def using r(1) by (rule to_double_nonneg)
  have q1: "q \<le> 1"
  proof (cases "(of_int n :: rat) / of_int t = 0")
    case True
    then show ?thesis by (simp add: q_def double_div_def to_double_def)
  next
    case False
    then have "(0::rat) < of_int n / of_int t" using r(1) by (simp only: less_le) simp
    then have "to_double (of_int n / of_int t) \<le> 1"
      using r(2) to_double_le_int [of "of_int n / of_int t" 1] by simp
    then show ?thesis by (simp add: q_def double_div_def)
  qed
  have e0: "(0::rat) \<le> of_int e" using assms(4) by simp
  have qe0: "0 \<le> q * of_int e" using q0 e0 by simp
  have qe1: "q * of_int e \<le> of_int e"
    using mult_right_mono [OF q1 e0] by simp
  show "0 \<le> double_mul (double_div (of_int n) (of_int t)) (of_int e)"
    unfolding double_mul_def q_def [symmetric] using qe0 by (rule to_double_nonneg)
  show "double_mul (double_div (of_int n) (of_int t)) (of_int e) \<le> of_int e"
  proof (cases "q * of_int e = 0")
    case True
    then show ?thesis using e0 by (simp add: double_mul_def q_def [symmetric] to_double_def)
  next
    case False
    then have "0 < q * of_int e" using qe0 by (simp only: less_le) simp
    then have "to_double (q * of_int e) \<le> of_int e"
      using qe1 assms(5) by (rule to_double_le_int)
    then show ?thesis by (simp add: double_mul_def q_def [symmetric])
  qed
qed

lemma c_round_bounds:
  assumes "0 \<le> p" "p \<le> of_int e"
  shows "c_round p = of_int \<lfloor>p + 1 / 2\<rfloor>" "0 \<le> \<lfloor>p + 1 / 2\<rfloor>" "\<lfloor>p + 1 / 2\<rfloor> \<le> e"
proof -
  show "c_round p = of_int \<lfloor>p + 1 / 2\<rfloor>" using assms(1) by (simp add: c_round_def)
  show "0 \<le> \<lfloor>p + 1 / 2\<rfloor>" using assms(1) by simp
  have "p + 1 / 2 < of_int e + 1" using assms(2) by simp
  then show "\<lfloor>p + 1 / 2\<rfloor> \<le> e" by (simp add: floor_le_iff)
qed

lemma int_of_double_int: "int_range k \<Longrightarrow> int_of_double (of_int k) = Some k"
  by (simp add: int_of_double_def int_result_def)

lemma share_in_double_bounds:
  assumes "0 \<le> d" "d \<le> t" "0 < t" "0 \<le> x" "x \<le> 2 ^ 52"
  shows "c_round (double_mul (double_div (of_int d) (of_int t)) (of_int x))
           = of_int (share_in_double d t x)"
    and "0 \<le> share_in_double d t x" and "share_in_double d t x \<le> x"
  using c_round_bounds [OF double_share_bounds [OF assms]]
  by (simp_all add: share_in_double_def)

lemma compute_and_set_green_positive:
  assumes n: "valid_density n" and e: "valid_density e" and t: "0 < n + e"
    and c: "valid_configuration c"
  shows "compute_and_set_green n e c =
    Some (c\<lparr>ns := (ns c)\<lparr>green_duration :=
                   min_green c + share_in_double n (n + e) (max_green c - min_green c),
                 yellow_duration := yellow_time c\<rparr>,
            ew := (ew c)\<lparr>green_duration :=
                   min_green c + share_in_double e (n + e) (max_green c - min_green c),
                 yellow_duration := yellow_time c\<rparr>\<rparr>)"
proof -
  define x where "x = max_green c - min_green c"
  have rn: "int_range n" and re: "int_range e" and n0: "0 \<le> n" and e0: "0 \<le> e"
    using n e by (simp_all add: valid_density_def)
  have cfg: "0 \<le> min_green c" "min_green c \<le> max_green c" "max_green c \<le> INT_MAX"
    using c by (simp_all add: valid_configuration_def int_range_def)
  have x0: "0 \<le> x" and xm: "x \<le> INT_MAX" and x52: "x \<le> 2 ^ 52"
    using cfg by (simp_all add: x_def INT_MAX_def)
  have rx: "int_range x" using x0 xm by (simp add: int_range_def INT_MIN_def)
  have total: "double_add (double_of_int n) (double_of_int e) = of_int (n + e)"
    by (simp only: int_range_double [OF rn] int_range_double [OF re] double_add_ints [OF rn re])
  have le: "n \<le> n + e" "e \<le> n + e" using n0 e0 by simp_all
  note sn = share_in_double_bounds [OF n0 le(1) t x0 x52]
  note se = share_in_double_bounds [OF e0 le(2) t x0 x52]
  have rsn: "int_range (share_in_double n (n + e) x)"
    using sn(2,3) n0 e0 xm by (simp add: int_range_def INT_MIN_def)
  have rse: "int_range (share_in_double e (n + e) x)"
    using se(2,3) n0 e0 xm by (simp add: int_range_def INT_MIN_def)
  have gn: "int_range (min_green c + share_in_double n (n + e) x)"
    using sn(2,3) n0 e0 cfg by (simp add: int_range_def INT_MIN_def x_def)
  have ge: "int_range (min_green c + share_in_double e (n + e) x)"
    using se(2,3) n0 e0 cfg by (simp add: int_range_def INT_MIN_def x_def)
  have cn: "clamp (min_green c + share_in_double n (n + e) x) (min_green c) (max_green c)
              = Some (min_green c + share_in_double n (n + e) x)"
    using sn(2,3) n0 e0 cfg by (simp add: clamp_def x_def)
  have ce: "clamp (min_green c + share_in_double e (n + e) x) (min_green c) (max_green c)
              = Some (min_green c + share_in_double e (n + e) x)"
    using se(2,3) n0 e0 cfg by (simp add: clamp_def x_def)
  have pos: "\<not> (of_int (n + e) :: rat) \<le> 0" using t by simp
  show ?thesis
    unfolding compute_and_set_green_def total Let_def x_def [symmetric]
    using pos rx rsn rse gn ge cn ce
    by (simp add: int_result_def int_range_double [OF rx] int_range_double [OF rn]
        int_range_double [OF re] sn(1) se(1) int_of_double_int del: of_int_add)
qed

lemma compute_and_set_green_zero:
  assumes "int_range n" "int_range e" "n + e \<le> 0"
  shows "compute_and_set_green n e c =
    Some (c\<lparr>ns := (ns c)\<lparr>green_duration := min_green c\<rparr>,
            ew := (ew c)\<lparr>green_duration := min_green c\<rparr>\<rparr>)"
proof -
  have total: "double_add (double_of_int n) (double_of_int e) = of_int (n + e)"
    by (simp only: int_range_double [OF assms(1)] int_range_double [OF assms(2)]
        double_add_ints [OF assms(1,2)])
  have "(of_int (n + e) :: rat) \<le> 0" using assms(3) by simp
  then show ?thesis
    unfolding compute_and_set_green_def total Let_def by simp
qed

section \<open>The error of the allocation against exact arithmetic\<close>

lemma double_share_error:
  assumes "0 < d" "d \<le> t" "0 < x"
  shows "\<bar>double_mul (double_div (of_int d) (of_int t)) (of_int x)
           - of_int d * of_int x / of_int t\<bar> \<le> of_int x / 2 ^ 52"
proof -
  define r :: rat where "r = of_int d / of_int t"
  define q where "q = to_double r"
  define p where "p = to_double (q * of_int x)"
  define X :: rat where "X = of_int x"
  have t: "0 < t" using assms by simp
  have X: "0 < X" using assms by (simp add: X_def)
  have r0: "0 < r" using assms t by (simp add: r_def)
  have r1: "r \<le> 1" using assms t by (simp add: r_def divide_le_eq)
  have qr: "\<bar>q - r\<bar> \<le> r / 2 ^ 53" unfolding q_def using r0 by (rule to_double_error)
  have "r / 2 ^ 53 < r" using r0 by simp
  then have q0: "0 < q" using qr by linarith
  have q1: "q \<le> 1" using to_double_le_int [of r 1] r0 r1 by (simp add: q_def)
  have qx: "0 < q * X" using q0 X by simp
  have pq: "\<bar>p - q * X\<bar> \<le> q * X / 2 ^ 53"
    unfolding p_def X_def [symmetric] using qx by (rule to_double_error)
  have a: "q * X / 2 ^ 53 \<le> X / 2 ^ 53"
    using mult_right_mono [OF q1 less_imp_le [OF X]] by (simp add: divide_right_mono)
  have "\<bar>q * X - r * X\<bar> = \<bar>q - r\<bar> * X"
    using X by (simp add: abs_mult flip: left_diff_distrib)
  also have "\<dots> \<le> r / 2 ^ 53 * X" using qr X by (simp add: mult_right_mono)
  also have "\<dots> \<le> X / 2 ^ 53" using r1 X by (simp add: mult_right_mono divide_right_mono)
  finally have b: "\<bar>q * X - r * X\<bar> \<le> X / 2 ^ 53" .
  have "\<bar>p - r * X\<bar> \<le> \<bar>p - q * X\<bar> + \<bar>q * X - r * X\<bar>" by simp
  also have "\<dots> \<le> X / 2 ^ 53 + X / 2 ^ 53" using pq a b by linarith
  also have "\<dots> = X / 2 ^ 52" by simp
  finally have "\<bar>p - r * X\<bar> \<le> X / 2 ^ 52" .
  moreover have "r * X = of_int d * of_int x / of_int t" by (simp add: r_def X_def)
  ultimately show ?thesis
    by (simp add: p_def q_def r_def X_def double_mul_def double_div_def)
qed

lemma share_in_double_nearest:
  assumes d: "0 \<le> d" "d \<le> t" and t: "0 < t" and x: "0 \<le> x" and small: "x * t \<le> 2 ^ 50"
  shows "nearest_integer (share_in_double d t x) (of_int d * of_int x / of_int t)"
proof (cases "d = 0 \<or> x = 0")
  case True
  then have "double_mul (double_div (of_int d) (of_int t)) (of_int x) = 0"
    by (auto simp: double_mul_def double_div_def to_double_def)
  moreover have "\<lfloor>1 / 2 :: rat\<rfloor> = 0" by (rule floor_unique) simp_all
  ultimately have "share_in_double d t x = 0" by (simp add: share_in_double_def)
  then show ?thesis using True by (auto simp: nearest_integer_def)
next
  case False
  then have d0: "0 < d" and x0: "0 < x" using d x by simp_all
  define p where "p = double_mul (double_div (of_int d) (of_int t)) (of_int x)"
  define R where "R = share_in_double d t x"
  define T :: rat where "T = of_int t"
  define v :: rat where "v = of_int d * of_int x / T"
  have T: "0 < T" using t by (simp add: T_def)
  have T2: "0 < 2 * T" using T by simp
  have R: "of_int R \<le> p + 1 / 2" "p + 1 / 2 < of_int R + 1"
    unfolding R_def share_in_double_def p_def [symmetric] by linarith+
  have "(of_int (x * t) :: rat) \<le> of_int (2 ^ 50)" using small of_int_le_iff by blast
  then have "of_int x * T \<le> 2 ^ 50" by (simp add: T_def)
  then have "of_int x / 2 ^ 52 \<le> 1 / (4 * T)" using T by (simp add: field_simps)
  moreover have "\<bar>p - v\<bar> \<le> of_int x / 2 ^ 52"
    unfolding p_def v_def T_def using d0 d(2) x0 by (rule double_share_error)
  ultimately have pv: "\<bar>p - v\<bar> \<le> 1 / (4 * T)" by linarith
  have vT: "v * T = of_int (d * x)" using T by (simp add: v_def)
  have "v < of_int R + 1 / 2 + 1 / (4 * T)" using pv R by linarith
  then have "v * (2 * T) < (of_int R + 1 / 2 + 1 / (4 * T)) * (2 * T)"
    using T2 by (rule mult_strict_right_mono)
  then have "of_int (2 * (d * x)) < of_int ((2 * R + 1) * t) + (1 / 2 :: rat)"
    using T vT by (simp add: algebra_simps T_def)
  then have "(of_int (2 * (d * x)) :: rat) < of_int ((2 * R + 1) * t + 1)" by simp
  then have "2 * (d * x) < (2 * R + 1) * t + 1" by (simp only: of_int_less_iff)
  then have "2 * (d * x) \<le> (2 * R + 1) * t" by simp
  then have "(of_int (2 * (d * x)) :: rat) \<le> of_int ((2 * R + 1) * t)"
    by (simp only: of_int_le_iff)
  then have "v * (2 * T) \<le> (of_int R + 1 / 2) * (2 * T)"
    using vT by (simp add: algebra_simps T_def)
  then have upper: "v \<le> of_int R + 1 / 2" using T2 by (rule mult_right_le_imp_le)
  have "of_int R - 1 / 2 - 1 / (4 * T) \<le> v" using pv R by linarith
  then have "(of_int R - 1 / 2 - 1 / (4 * T)) * (2 * T) \<le> v * (2 * T)"
    using less_imp_le [OF T2] by (rule mult_right_mono)
  then have "of_int ((2 * R - 1) * t) - (1 / 2 :: rat) \<le> of_int (2 * (d * x))"
    using T vT by (simp add: algebra_simps T_def)
  then have "(of_int ((2 * R - 1) * t - 1) :: rat) < of_int (2 * (d * x))" by simp
  then have "(2 * R - 1) * t - 1 < 2 * (d * x)" by (simp only: of_int_less_iff)
  then have "(2 * R - 1) * t \<le> 2 * (d * x)" by simp
  then have "(of_int ((2 * R - 1) * t) :: rat) \<le> of_int (2 * (d * x))"
    by (simp only: of_int_le_iff)
  then have "(of_int R - 1 / 2) * (2 * T) \<le> v * (2 * T)"
    using vT by (simp add: algebra_simps T_def)
  then have lower: "of_int R - 1 / 2 \<le> v" using T2 by (rule mult_right_le_imp_le)
  show ?thesis
    unfolding nearest_integer_def R_def [symmetric] v_def [symmetric, unfolded T_def]
    using upper lower by linarith
qed

section \<open>Evaluating the allocation\<close>

lemma binary_exponent_unique:
  assumes "2 powi e \<le> x" "x < 2 powi (e + 1)"
  shows "binary_exponent x = e"
proof -
  have "(0::rat) < 2 powi e" by simp
  then have x: "0 < x" using assms(1) by linarith
  note b = binary_exponent_bounds [OF x]
  have "\<not> binary_exponent x < e"
  proof
    assume "binary_exponent x < e"
    then have "(2::rat) powi (binary_exponent x + 1) \<le> 2 powi e"
      by (intro power_int_increasing) simp_all
    then show False using b(2) assms(1) by linarith
  qed
  moreover have "\<not> e < binary_exponent x"
  proof
    assume "e < binary_exponent x"
    then have "(2::rat) powi (e + 1) \<le> 2 powi binary_exponent x"
      by (intro power_int_increasing) simp_all
    then show False using b(1) assms(2) by linarith
  qed
  ultimately show ?thesis by linarith
qed

lemma round_half_even_unique:
  assumes "\<bar>x - of_int m\<bar> < 1 / 2"
  shows "round_half_even x = m"
proof -
  have "\<bar>(of_int (round_half_even x) :: rat) - of_int m\<bar> < 1"
    using round_half_even_err [of x] assms by linarith
  then have "\<bar>(of_int (round_half_even x - m) :: rat)\<bar> < of_int 1" by simp
  then have "\<bar>round_half_even x - m\<bar> < 1"
    by (simp only: of_int_less_iff flip: of_int_abs)
  then show ?thesis by simp
qed

lemma to_double_unique:
  assumes "2 powi e \<le> x" "x < 2 powi (e + 1)" "\<bar>x * 2 powi (52 - e) - of_int m\<bar> < 1 / 2"
  shows "to_double x = of_int m * 2 powi (e - 52)"
proof -
  have "(0::rat) < 2 powi e" by simp
  then have x: "0 < x" using assms(1) by linarith
  show ?thesis
    by (simp only: to_double_pos [OF x] binary_exponent_unique [OF assms(1,2)]
        round_half_even_unique [OF assms(3)])
qed

lemma quotient_23_70: "to_double (23 / 70) = 5919016653115509 / 2 ^ 54"
  using to_double_unique [of "- 2" "23 / 70" 5919016653115509] by (simp add: power_int_minus)

lemma product_23_70_35: "to_double (5919016653115509 / 2 ^ 54 * 35) = 23 / 2"
  using to_double_unique [of 3 "5919016653115509 / 2 ^ 54 * 35" 6473924464345088]
  by (simp add: power_int_minus)

lemma quotient_47_70: "to_double (47 / 70) = 6047690928183237 / 2 ^ 53"
  using to_double_unique [of "- 1" "47 / 70" 6047690928183237] by (simp add: power_int_minus)

lemma product_47_70_35: "to_double (6047690928183237 / 2 ^ 53 * 35) = 6614661952700415 / 2 ^ 48"
  using to_double_unique [of 4 "6047690928183237 / 2 ^ 53 * 35" 6614661952700415]
  by (simp add: power_int_minus)

lemma share_23_70_35: "share_in_double 23 70 35 = 12"
proof -
  have "\<lfloor>23 / 2 + 1 / 2 :: rat\<rfloor> = 12" by simp
  then show ?thesis
    by (simp only: share_in_double_def double_mul_def double_div_def of_int_numeral
        quotient_23_70 product_23_70_35)
qed

lemma share_47_70_35: "share_in_double 47 70 35 = 23"
proof -
  have "\<lfloor>6614661952700415 / 2 ^ 48 + 1 / 2 :: rat\<rfloor> = 23" by (rule floor_unique) simp_all
  then show ?thesis
    by (simp only: share_in_double_def double_mul_def double_div_def of_int_numeral
        quotient_47_70 product_47_70_35)
qed

lemma spec_allocate_23_47:
  "spec_allocate round_half_away 23 47 5 40 = (17, 29)"
  "spec_allocate round_half_even 23 47 5 40 = (17, 29)"
proof -
  have f: "\<lfloor>23 / 2 :: rat\<rfloor> = 11" "\<lfloor>47 / 2 :: rat\<rfloor> = 23"
    by (rule floor_unique; simp)+
  show "spec_allocate round_half_away 23 47 5 40 = (17, 29)"
    by (simp add: spec_allocate_def round_half_away_def Let_def)
  show "spec_allocate round_half_even 23 47 5 40 = (17, 29)"
    by (simp add: spec_allocate_def round_half_even_def Let_def f)
qed

lemma share_in_double_whole:
  assumes "0 < t" "\<bar>x\<bar> \<le> 2 ^ 52"
  shows "share_in_double t t x = x"
proof -
  have one: "to_double 1 = 1" using to_double_of_int [of 1] by simp
  have "\<lfloor>(of_int x :: rat) + 1 / 2\<rfloor> = x" by (rule floor_unique) simp_all
  then show ?thesis
    using assms(1) by (simp add: share_in_double_def double_mul_def double_div_def one
        to_double_of_int [OF assms(2)])
qed

lemma share_in_double_none: "share_in_double 0 t x = 0"
proof -
  have "\<lfloor>1 / 2 :: rat\<rfloor> = 0" by (rule floor_unique) simp_all
  then show ?thesis
    by (simp add: share_in_double_def double_mul_def double_div_def to_double_def)
qed

lemma valid_configuration_new:
  "valid_configuration (IntersectionController_new minG maxG yellow allred cycles0 realtime)
     \<longleftrightarrow> 0 \<le> minG \<and> minG \<le> maxG \<and> int_range maxG"
  by (simp add: valid_configuration_def IntersectionController_new_def Let_def)

lemma allocate_positive:
  assumes "valid_density n" "valid_density e" "0 < n + e" "0 \<le> minG" "minG \<le> maxG"
    "int_range maxG"
  shows "allocate n e minG maxG =
    Some (minG + share_in_double n (n + e) (maxG - minG),
          minG + share_in_double e (n + e) (maxG - minG))"
proof -
  have "valid_configuration (IntersectionController_new minG maxG 3 1 5 True)"
    using assms(4-6) by (simp add: valid_configuration_new)
  from compute_and_set_green_positive [OF assms(1-3) this]
  show ?thesis
    by (simp add: allocate_def) (simp add: IntersectionController_new_def Let_def)
qed

lemma allocate_all_budget_to_ns: "allocate 100 0 5 40 = Some (40, 5)"
proof -
  have r: "int_range 100" "int_range 0" "int_range 40"
    by (simp_all add: int_range_def INT_MIN_def INT_MAX_def)
  have "allocate 100 0 5 40 = Some (5 + share_in_double 100 (100 + 0) (40 - 5),
                                    5 + share_in_double 0 (100 + 0) (40 - 5))"
    by (rule allocate_positive) (simp_all add: valid_density_def r)
  then show ?thesis by (simp add: share_in_double_whole share_in_double_none)
qed

lemma small_ints: "int_range 0" "int_range 5" "int_range 40" "int_range 23" "int_range 47"
  "int_range 100"
  by (simp_all add: int_range_def INT_MIN_def INT_MAX_def)

section \<open>The record of a cycle\<close>

lemma ctl_emit: "ctl (emit s os w) = ctl w"
  by (simp add: emit_def)

lemma trace_emit: "trace (emit s os w) = trace w @ [(s, ctl w)]"
  by (simp add: emit_def trace_def)

lemma ctl_set_and_print: "ctl (set_and_print clk r s w) = with_phase r s (ctl w)"
  by (simp add: set_and_print_def Let_def ctl_emit with_phase_def)

lemma trace_set_and_print:
  "trace (set_and_print clk r s w) = trace w @ [(SetAndPrint r s, with_phase r s (ctl w))]"
  by (simp add: set_and_print_def Let_def trace_emit with_phase_def) (simp add: trace_def)

lemma ctl_wait_and_print: "ctl (wait_and_print seconds w) = ctl w"
  by (simp add: wait_and_print_def ctl_emit)

lemma trace_wait_and_print:
  "trace (wait_and_print seconds w) = trace w @ [(WaitAndPrint seconds, ctl w)]"
  by (simp add: wait_and_print_def trace_emit)

lemma with_phase_twice: "with_phase r s (with_phase r s' c) = with_phase r s c"
  by (cases r) (simp_all add: with_phase_def)

lemma with_phase_fields:
  "min_green (with_phase r s c) = min_green c"
  "max_green (with_phase r s c) = max_green c"
  "yellow_time (with_phase r s c) = yellow_time c"
  "all_red_time (with_phase r s c) = all_red_time c"
  "cycles (with_phase r s c) = cycles c"
  "realtime_delay (with_phase r s c) = realtime_delay c"
  "green_duration (ns (with_phase r s c)) = green_duration (ns c)"
  "green_duration (ew (with_phase r s c)) = green_duration (ew c)"
  "yellow_duration (ns (with_phase r s c)) = yellow_duration (ns c)"
  "yellow_duration (ew (with_phase r s c)) = yellow_duration (ew c)"
  "name (ns (with_phase r s c)) = name (ns c)"
  "name (ew (with_phase r s c)) = name (ew c)"
  by (cases r; simp add: with_phase_def)+

lemma with_phase_state:
  "state (ns (with_phase NS s c)) = s"
  "state (ew (with_phase NS s c)) = state (ew c)"
  "state (ew (with_phase EW s c)) = s"
  "state (ns (with_phase EW s c)) = state (ns c)"
  by (simp_all add: with_phase_def)

lemma ctl_run_phase:
  "ctl (run_phase clk NS EW w) = with_phase EW RED (with_phase NS RED (ctl w))"
  by (simp add: run_phase_def Let_def ctl_set_and_print ctl_wait_and_print with_phase_twice)

lemma trace_ctl_update: "trace (w\<lparr>ctl := c\<rparr>) = trace w"
  by (simp add: trace_def)

lemma cycle_result:
  assumes "compute_and_set_green n e (ctl w) = Some c'"
  shows "\<exists>w'. cycle clk n e k w = Some w' \<and>
           ctl w' = with_phase EW RED (with_phase NS RED c') \<and>
           trace w' = trace w @ cycle_trace n e k (ctl w) c'"
  using assms
  by (simp add: cycle_def Let_def ctl_emit trace_emit run_phase_def ctl_set_and_print
      ctl_wait_and_print trace_set_and_print trace_wait_and_print with_phase_twice
      with_phase_fields cycle_trace_def trace_ctl_update)

lemma compute_and_set_green_valid:
  assumes "valid_density n" "valid_density e" "valid_configuration c"
  obtains g1 g2 y1 y2 where
    "compute_and_set_green n e c =
       Some (c\<lparr>ns := (ns c)\<lparr>green_duration := g1, yellow_duration := y1\<rparr>,
               ew := (ew c)\<lparr>green_duration := g2, yellow_duration := y2\<rparr>\<rparr>)"
    "min_green c \<le> g1" "g1 \<le> max_green c" "min_green c \<le> g2" "g2 \<le> max_green c"
    "y1 = yellow_time c \<or> y1 = yellow_duration (ns c)"
    "y2 = yellow_time c \<or> y2 = yellow_duration (ew c)"
proof (cases "0 < n + e")
  case True
  define x where "x = max_green c - min_green c"
  have n0: "0 \<le> n" and e0: "0 \<le> e" using assms(1,2) by (simp_all add: valid_density_def)
  have le: "n \<le> n + e" "e \<le> n + e" using n0 e0 by simp_all
  have x0: "0 \<le> x" and x52: "x \<le> 2 ^ 52"
    using assms(3) by (simp_all add: valid_configuration_def int_range_def INT_MAX_def x_def)
  note bn = share_in_double_bounds [OF n0 le(1) True x0 x52]
  note be = share_in_double_bounds [OF e0 le(2) True x0 x52]
  show ?thesis
  proof (rule that)
    show "compute_and_set_green n e c =
       Some (c\<lparr>ns := (ns c)\<lparr>green_duration := min_green c + share_in_double n (n + e) x,
                   yellow_duration := yellow_time c\<rparr>,
               ew := (ew c)\<lparr>green_duration := min_green c + share_in_double e (n + e) x,
                   yellow_duration := yellow_time c\<rparr>\<rparr>)"
      unfolding x_def using assms(1,2) True assms(3) by (rule compute_and_set_green_positive)
  qed (use bn(2,3) be(2,3) in \<open>simp_all add: x_def\<close>)
next
  case False
  have r: "int_range n" "int_range e" using assms(1,2) by (simp_all add: valid_density_def)
  have z: "n + e \<le> 0" using False by simp
  have "compute_and_set_green n e c =
       Some (c\<lparr>ns := (ns c)\<lparr>green_duration := min_green c,
                   yellow_duration := yellow_duration (ns c)\<rparr>,
               ew := (ew c)\<lparr>green_duration := min_green c,
                   yellow_duration := yellow_duration (ew c)\<rparr>\<rparr>)"
    by (simp add: compute_and_set_green_zero [OF r z])
  then show ?thesis
    by (rule that) (use assms(3) in \<open>simp_all add: valid_configuration_def\<close>)
qed

section \<open>A rule for the loop over the cycles\<close>

lemma simulate_loop_rule:
  fixes I :: "int \<Rightarrow> IntersectionController \<Rightarrow> bool"
    and Q P :: "int \<Rightarrow> (stmt \<times> IntersectionController) list \<Rightarrow> bool"
  assumes dens: "valid_density n" "valid_density e"
    and step: "\<And>k c c'. I k c \<Longrightarrow> valid_configuration c \<Longrightarrow> cycles c = N \<Longrightarrow>
        1 \<le> k \<Longrightarrow> k \<le> N \<Longrightarrow> compute_and_set_green n e c = Some c' \<Longrightarrow>
        I (k + 1) (with_phase EW RED (with_phase NS RED c')) \<and> Q k (cycle_trace n e k c c')"
    and nil: "\<And>k. N < k \<Longrightarrow> P k []"
    and app: "\<And>k t u. 1 \<le> k \<Longrightarrow> k \<le> N \<Longrightarrow> Q k t \<Longrightarrow> P (k + 1) u \<Longrightarrow> P k (t @ u)"
    and N: "N < INT_MAX"
    and start: "I k (ctl w)" "valid_configuration (ctl w)" "cycles (ctl w) = N" "1 \<le> k"
  shows "\<exists>w'. simulate_loop clk n e k w = Some w' \<and> I (max k (N + 1)) (ctl w') \<and>
           valid_configuration (ctl w') \<and> cycles (ctl w') = N \<and>
           (\<exists>t. trace w' = trace w @ t \<and> P k t)"
  using start
proof (induction "nat (N + 1 - k)" arbitrary: k w)
  case 0
  then have "N < k" by simp
  then have "simulate_loop clk n e k w = Some w" "P k []"
    using 0 nil by (simp_all add: simulate_loop.simps)
  moreover have "max k (N + 1) = k" using \<open>N < k\<close> by simp
  ultimately show ?case using 0 by simp
next
  case (Suc m)
  then have k: "k \<le> N" by simp
  obtain g1 g2 y1 y2 where c':
    "compute_and_set_green n e (ctl w) =
       Some ((ctl w)\<lparr>ns := (ns (ctl w))\<lparr>green_duration := g1, yellow_duration := y1\<rparr>,
                      ew := (ew (ctl w))\<lparr>green_duration := g2, yellow_duration := y2\<rparr>\<rparr>)"
    using compute_and_set_green_valid [OF dens Suc.prems(2)] by metis
  define c1 where "c1 = (ctl w)\<lparr>ns := (ns (ctl w))\<lparr>green_duration := g1, yellow_duration := y1\<rparr>,
                      ew := (ew (ctl w))\<lparr>green_duration := g2, yellow_duration := y2\<rparr>\<rparr>"
  obtain w1 where w1: "cycle clk n e k w = Some w1"
    "ctl w1 = with_phase EW RED (with_phase NS RED c1)"
    "trace w1 = trace w @ cycle_trace n e k (ctl w) c1"
    using cycle_result [OF c' [folded c1_def]] by blast
  have s: "I (k + 1) (ctl w1)" "Q k (cycle_trace n e k (ctl w) c1)"
    using step [OF Suc.prems(1-4) k c' [folded c1_def]] by (simp_all add: w1(2))
  have v: "valid_configuration (ctl w1)" "cycles (ctl w1) = N"
    using Suc.prems(2,3)
    by (simp_all add: w1(2) c1_def with_phase_fields valid_configuration_def)
  have ir: "int_result (k + 1) = Some (k + 1)"
    using k N Suc.prems(4) by (simp add: int_result_def int_range_def INT_MIN_def)
  have m: "m = nat (N + 1 - (k + 1))" using Suc.hyps(2) by simp
  have mx: "max (k + 1) (N + 1) = max k (N + 1)" using k by simp
  obtain w' t where w': "simulate_loop clk n e (k + 1) w1 = Some w'" "I (max k (N + 1)) (ctl w')"
    "valid_configuration (ctl w')" "cycles (ctl w') = N" "trace w' = trace w1 @ t" "P (k + 1) t"
    using Suc.hyps(1) [OF m s(1) v] Suc.prems(4) by (auto simp: mx)
  have "simulate_loop clk n e k w = Some w'"
    using k Suc.prems(3) w1(1) ir w'(1) by (subst simulate_loop.simps) simp
  moreover have "trace w' = trace w @ (cycle_trace n e k (ctl w) c1 @ t)"
    by (simp add: w'(5) w1(3))
  moreover have "P k (cycle_trace n e k (ctl w) c1 @ t)"
    using Suc.prems(4) k s(2) w'(6) by (rule app)
  ultimately show ?case using w'(2-4) by blast
qed

lemma since_append: "trace w' = trace w @ t \<Longrightarrow> since w w' = t"
  by (simp add: since_def)

lemma simulate_with_inputs_rule:
  fixes I :: "int \<Rightarrow> IntersectionController \<Rightarrow> bool"
    and Q P :: "int \<Rightarrow> (stmt \<times> IntersectionController) list \<Rightarrow> bool"
  assumes dens: "valid_density n" "valid_density e"
    and step: "\<And>k c c'. I k c \<Longrightarrow> valid_configuration c \<Longrightarrow> cycles c = N \<Longrightarrow>
        1 \<le> k \<Longrightarrow> k \<le> N \<Longrightarrow> compute_and_set_green n e c = Some c' \<Longrightarrow>
        I (k + 1) (with_phase EW RED (with_phase NS RED c')) \<and> Q k (cycle_trace n e k c c')"
    and nil: "\<And>k. N < k \<Longrightarrow> P k []"
    and app: "\<And>k t u. 1 \<le> k \<Longrightarrow> k \<le> N \<Longrightarrow> Q k t \<Longrightarrow> P (k + 1) u \<Longrightarrow> P k (t @ u)"
    and N: "N < INT_MAX"
    and start: "I 1 (ctl w)" "valid_configuration (ctl w)" "cycles (ctl w) = N"
  shows "\<exists>w'. simulate_with_inputs clk n e w = Some w' \<and> I (max 1 (N + 1)) (ctl w') \<and>
           valid_configuration (ctl w') \<and> cycles (ctl w') = N \<and>
           (\<exists>t. trace w' = trace w @ (PrintSimulating, ctl w) # t \<and> P 1 t)"
proof -
  define w0 where "w0 = emit PrintSimulating
                [Stdout (newline @ ''Simulating '' @ string_of_int (cycles (ctl w)) @
                         '' cycles with densities: NS='' @ string_of_int n @
                         ''  EW='' @ string_of_int e @ newline @ newline)] w"
  have w0: "ctl w0 = ctl w" "trace w0 = trace w @ [(PrintSimulating, ctl w)]"
    by (simp_all add: w0_def ctl_emit trace_emit)
  have run: "simulate_with_inputs clk n e w = simulate_loop clk n e 1 w0"
    by (simp add: simulate_with_inputs_def w0_def Let_def)
  have "\<exists>w'. simulate_loop clk n e 1 w0 = Some w' \<and> I (max 1 (N + 1)) (ctl w') \<and>
           valid_configuration (ctl w') \<and> cycles (ctl w') = N \<and>
           (\<exists>t. trace w' = trace w0 @ t \<and> P 1 t)"
  proof (rule simulate_loop_rule [where I = I and Q = Q and P = P and N = N])
    show "valid_density n" "valid_density e" by fact+
    show "I (k + 1) (with_phase EW RED (with_phase NS RED c')) \<and> Q k (cycle_trace n e k c c')"
      if "I k c" "valid_configuration c" "cycles c = N" "1 \<le> k" "k \<le> N"
        "compute_and_set_green n e c = Some c'" for k c c'
      using that by (rule step)
    show "P k []" if "N < k" for k using that by (rule nil)
    show "P k (t @ u)" if "1 \<le> k" "k \<le> N" "Q k t" "P (k + 1) u" for k t u
      using that by (rule app)
    show "N < INT_MAX" by fact
    show "I 1 (ctl w0)" "valid_configuration (ctl w0)" "cycles (ctl w0) = N"
      using start by (simp_all only: w0(1))
    show "(1::int) \<le> 1" by simp
  qed
  then obtain w' t where w': "simulate_loop clk n e 1 w0 = Some w'" "I (max 1 (N + 1)) (ctl w')"
    "valid_configuration (ctl w')" "cycles (ctl w') = N" "trace w' = trace w0 @ t" "P 1 t"
    by blast
  have "trace w' = trace w @ (PrintSimulating, ctl w) # t"
    by (simp add: w'(5) w0(2))
  then show ?thesis using w' run by simp
qed

lemma cycle_trace_transitions:
  "concat (map (transition_of \<circ> fst) (cycle_trace n e k c c')) =
     [(NS, GREEN), (NS, YELLOW), (NS, RED), (EW, GREEN), (EW, YELLOW), (EW, RED)]"
  by (simp add: cycle_trace_def)

lemma cycle_trace_allocations:
  "concat (map (allocation_of \<circ> fst) (cycle_trace n e k c c')) = [(n, e)]"
  by (simp add: cycle_trace_def)

lemma transitions_trace: "transitions w = concat (map (transition_of \<circ> fst) (trace w))"
  by (simp add: transitions_def statements_def trace_def comp_def)

lemma allocations_trace: "allocations w = concat (map (allocation_of \<circ> fst) (trace w))"
  by (simp add: allocations_def statements_def trace_def comp_def)

section \<open>Properties of a run\<close>

lemma compute_and_set_green_frame:
  assumes "compute_and_set_green n e c = Some c'"
  shows "state (ns c') = state (ns c)" "state (ew c') = state (ew c)"
    "name (ns c') = name (ns c)" "name (ew c') = name (ew c)"
    "min_green c' = min_green c" "max_green c' = max_green c"
    "yellow_time c' = yellow_time c" "all_red_time c' = all_red_time c"
    "cycles c' = cycles c" "realtime_delay c' = realtime_delay c"
    "yellow_duration (ns c') = yellow_time c \<or> yellow_duration (ns c') = yellow_duration (ns c)"
    "yellow_duration (ew c') = yellow_time c \<or> yellow_duration (ew c') = yellow_duration (ew c)"
  using assms
  by (auto simp: compute_and_set_green_def Let_def split: if_splits bind_splits)

lemma compute_and_set_green_bounds:
  assumes "valid_density n" "valid_density e" "valid_configuration c"
    and "compute_and_set_green n e c = Some c'"
  shows "green_in_bounds c'"
proof -
  obtain g1 g2 y1 y2 where
    "compute_and_set_green n e c =
       Some (c\<lparr>ns := (ns c)\<lparr>green_duration := g1, yellow_duration := y1\<rparr>,
               ew := (ew c)\<lparr>green_duration := g2, yellow_duration := y2\<rparr>\<rparr>)"
    "min_green c \<le> g1" "g1 \<le> max_green c" "min_green c \<le> g2" "g2 \<le> max_green c"
    using compute_and_set_green_valid [OF assms(1-3)] by metis
  then show ?thesis using assms(4) by (auto simp: green_in_bounds_def)
qed

lemma wait_and_print_effect:
  "map outs (history (wait_and_print seconds w)) =
     map outs (history w) @
     [if seconds \<le> 0 then []
      else if realtime_delay (ctl w) then [SleepFor seconds]
      else [Stdout (''   (simulated '' @ string_of_int seconds @ ''s)'' @ newline)]]"
  by (simp add: wait_and_print_def emit_def)

lemma green_only_from_rest_append:
  "t \<noteq> [] \<Longrightarrow>
   green_only_from_rest c (t @ u) \<longleftrightarrow>
     green_only_from_rest c t \<and> green_only_from_rest (snd (last t)) u"
proof (induction t arbitrary: c)
  case Nil
  then show ?case by simp
next
  case (Cons a t)
  obtain s c' where a: "a = (s, c')" by (cases a)
  show ?case
  proof (cases "t = []")
    case True
    then show ?thesis by (simp add: a)
  next
    case False
    then show ?thesis using Cons.IH [OF False, of c'] by (simp add: a)
  qed
qed

lemma at_rest_after_cycle: "at_rest (with_phase EW RED (with_phase NS RED c))"
  by (simp add: at_rest_def with_phase_state)

lemma cycle_trace_one_direction:
  assumes "at_rest c" "state (ns c') = state (ns c)" "state (ew c') = state (ew c)"
  shows "\<forall>(s, x) \<in> set (cycle_trace n e k c c'). one_direction_at_most x"
    and "green_only_from_rest c0 (cycle_trace n e k c c')"
    and "snd (last (cycle_trace n e k c c')) = with_phase EW RED (with_phase NS RED c')"
  using assms
  by (simp_all add: cycle_trace_def one_direction_at_most_def at_rest_def with_phase_state)

lemma green_in_bounds_with_phase: "green_in_bounds (with_phase r s c) = green_in_bounds c"
  by (simp add: green_in_bounds_def with_phase_fields)

lemma from_first_allocation_skip:
  "allocation_of s = [] \<Longrightarrow> from_first_allocation ((s, c) # t) = from_first_allocation t"
  by (simp add: from_first_allocation_def)

lemma from_first_allocation_found:
  "allocation_of s \<noteq> [] \<Longrightarrow> from_first_allocation ((s, c) # t) = (s, c) # t"
  by (simp add: from_first_allocation_def)

lemma allocations_emit: "allocations (emit s os w) = allocations w @ allocation_of s"
  by (simp add: allocations_trace trace_emit)

lemma simulate_with_inputs_allocations:
  assumes "valid_density n" and "valid_density e"
    and "valid_configuration (ctl w)" and "cycles (ctl w) = N" and "N < INT_MAX"
  shows "\<exists>w'. simulate_with_inputs clk n e w = Some w' \<and>
           valid_configuration (ctl w') \<and> cycles (ctl w') = N \<and>
           allocations w' = allocations w @ replicate (nat N) (n, e)"
proof -
  define Q :: "int \<Rightarrow> (stmt \<times> IntersectionController) list \<Rightarrow> bool"
    where "Q = (\<lambda>k t. concat (map (allocation_of \<circ> fst) t) = [(n, e)])"
  define P :: "int \<Rightarrow> (stmt \<times> IntersectionController) list \<Rightarrow> bool"
    where "P = (\<lambda>k t. concat (map (allocation_of \<circ> fst) t) = replicate (nat (N + 1 - k)) (n, e))"
  have "\<exists>w'. simulate_with_inputs clk n e w = Some w' \<and> True \<and>
           valid_configuration (ctl w') \<and> cycles (ctl w') = N \<and>
           (\<exists>t. trace w' = trace w @ (PrintSimulating, ctl w) # t \<and> P 1 t)"
  proof (rule simulate_with_inputs_rule [where I = "\<lambda>k c. True" and Q = Q and P = P and N = N])
    show "True \<and> Q k (cycle_trace n e k c c')" for k c c'
      by (simp add: Q_def cycle_trace_allocations)
    show "P k []" if "N < k" for k using that by (simp add: P_def)
    show "P k (t @ u)" if k: "k \<le> N" and Qt: "Q k t" and Pu: "P (k + 1) u" for k t u
    proof -
      have "nat (N + 1 - k) = Suc (nat (N + 1 - (k + 1)))" using k by simp
      then show ?thesis using Qt Pu by (simp add: P_def Q_def)
    qed
  qed (use assms in simp_all)
  then obtain w' t where w': "simulate_with_inputs clk n e w = Some w'"
    "valid_configuration (ctl w')" "cycles (ctl w') = N"
    "trace w' = trace w @ (PrintSimulating, ctl w) # t" "P 1 t"
    by blast
  have "allocations w' = allocations w @ replicate (nat N) (n, e)"
    using w'(5) by (simp add: allocations_trace w'(4) P_def)
  then show ?thesis using w'(1-3) by simp
qed

lemma random_loop_allocations:
  assumes rng: "\<And>j. valid_density (rng j)" and N: "N < INT_MAX"
    and start: "valid_configuration (ctl w)" "cycles (ctl w) = N" "0 \<le> c"
  shows "\<exists>w'. random_loop clk rng N c w = Some w' \<and>
           allocations w' = allocations w @
             concat (map (\<lambda>j. replicate (nat N) (rng (2 * j), rng (2 * j + 1))) [nat c..<nat N])"
  using start
proof (induction "nat (N - c)" arbitrary: c w)
  case 0
  then have "\<not> c < N" by simp
  then show ?case by (simp add: random_loop.simps)
next
  case (Suc m)
  then have c: "c < N" by simp
  define w0 where "w0 = emit (PrintRandomDensities (c + 1))
                  [Stdout (newline @ ''--- Random densities for cycle '' @ string_of_int (c + 1) @
                           '' ---'' @ newline)] w"
  have w0: "ctl w0 = ctl w" "allocations w0 = allocations w"
    by (simp_all add: w0_def ctl_emit allocations_emit)
  have "\<exists>w1. simulate_with_inputs clk (rng (2 * nat c)) (rng (2 * nat c + 1)) w0 = Some w1 \<and>
    valid_configuration (ctl w1) \<and> cycles (ctl w1) = N \<and>
    allocations w1 = allocations w0 @ replicate (nat N) (rng (2 * nat c), rng (2 * nat c + 1))"
    by (rule simulate_with_inputs_allocations) (use rng N Suc.prems(1,2) in \<open>simp_all add: w0(1)\<close>)
  then obtain w1 where w1: "simulate_with_inputs clk (rng (2 * nat c)) (rng (2 * nat c + 1)) w0 = Some w1"
    "valid_configuration (ctl w1)" "cycles (ctl w1) = N"
    "allocations w1 = allocations w0 @ replicate (nat N) (rng (2 * nat c), rng (2 * nat c + 1))"
    by blast
  have m: "m = nat (N - (c + 1))" using Suc.hyps(2) by simp
  obtain w' where w': "random_loop clk rng N (c + 1) w1 = Some w'"
    "allocations w' = allocations w1 @
       concat (map (\<lambda>j. replicate (nat N) (rng (2 * j), rng (2 * j + 1))) [nat (c + 1)..<nat N])"
    using Suc.hyps(1) [OF m w1(2,3)] Suc.prems(3) by auto
  have "random_loop clk rng N c w = Some w'"
    using c w1(1) w'(1) by (subst random_loop.simps) (simp add: w0_def Let_def)
  moreover have "[nat c..<nat N] = nat c # [nat (c + 1)..<nat N]"
    using c Suc.prems(3) by (simp add: upt_conv_Cons nat_add_distrib)
  ultimately show ?case by (simp add: w'(2) w1(4) w0(2))
qed

lemma manual_mode_runs_each_cycle_once:
  assumes "N < INT_MAX" and "valid_density ns_d" and "valid_density ew_d"
  shows "\<exists>w. main_from_inputs clk rng N 1 realtime ns_d ew_d = Some w \<and>
           allocations w = replicate (nat N) (ns_d, ew_d)"
proof -
  define w0 where "w0 = initial_world (IntersectionController_new 5 40 3 1 N realtime)"
  have c0: "valid_configuration (ctl w0)" "cycles (ctl w0) = N"
    by (simp_all add: w0_def initial_world_def valid_configuration_new small_ints)
       (simp add: IntersectionController_new_def Let_def)
  have a0: "allocations w0 = []"
    by (simp add: w0_def initial_world_def allocations_def statements_def)
  obtain w1 where w1: "simulate_with_inputs clk ns_d ew_d w0 = Some w1"
    "allocations w1 = allocations w0 @ replicate (nat N) (ns_d, ew_d)"
    using simulate_with_inputs_allocations [OF assms(2,3) c0 assms(1)] by blast
  define w where "w = emit PrintFinished [Stdout (newline @ ''Simulation finished.'' @ newline)] w1"
  have "main_from_inputs clk rng N 1 realtime ns_d ew_d = Some w"
    using w1(1) by (simp add: main_from_inputs_def w0_def w_def Let_def)
  moreover have "allocations w = replicate (nat N) (ns_d, ew_d)"
    by (simp add: w_def allocations_emit w1(2) a0)
  ultimately show ?thesis by blast
qed

section \<open>Concrete values\<close>

lemma initial_world_simps:
  "ctl (initial_world c) = c" "trace (initial_world c) = []"
  "transitions (initial_world c) = []" "allocations (initial_world c) = []"
  "clock_reads (initial_world c) = 0" "history (initial_world c) = []"
  by (simp_all add: initial_world_def trace_def transitions_def allocations_def statements_def)

lemma new_controller_fields:
  "min_green (IntersectionController_new a b y r n d) = a"
  "max_green (IntersectionController_new a b y r n d) = b"
  "yellow_time (IntersectionController_new a b y r n d) = y"
  "all_red_time (IntersectionController_new a b y r n d) = r"
  "cycles (IntersectionController_new a b y r n d) = n"
  "realtime_delay (IntersectionController_new a b y r n d) = d"
  "ns (IntersectionController_new a b y r n d) =
     \<lparr>name = ''North-South'', state = RED, green_duration = 10, yellow_duration = y,
      red_duration = 0\<rparr>"
  "ew (IntersectionController_new a b y r n d) =
     \<lparr>name = ''East-West'', state = RED, green_duration = 10, yellow_duration = y,
      red_duration = 0\<rparr>"
  by (simp_all add: IntersectionController_new_def Let_def TrafficLight_new_def)

lemma digit_chars:
  "digit_char 0 = CHR ''0''" "digit_char 1 = CHR ''1''" "digit_char 2 = CHR ''2''"
  "digit_char 3 = CHR ''3''" "digit_char 4 = CHR ''4''" "digit_char 5 = CHR ''5''"
  "digit_char 6 = CHR ''6''" "digit_char 7 = CHR ''7''" "digit_char 8 = CHR ''8''"
  "digit_char 9 = CHR ''9''" "digit_char (Suc 0) = CHR ''1''"
  by code_simp+

lemma length_current_time_str: "length (current_time_str t) = 8"
  by (simp add: current_time_str_def two_digits_def)

lemma setw_current_time_str: "setw 3 (current_time_str t) = current_time_str t"
  by (simp add: setw_def length_current_time_str)

lemma sample_values:
  "valid_density 10" "valid_density 20" "valid_density 100" "valid_density 0"
  "int_range 2" "int_range 1" "(2::int) < INT_MAX" "(1::int) < INT_MAX"
  by (simp_all add: valid_density_def int_range_def INT_MIN_def INT_MAX_def)

lemma sample_numbers_range: "0 \<le> sample_numbers j \<and> sample_numbers j \<le> 100"
proof -
  have "j mod 4 < 4" by simp
  then have "int (j mod 4) \<le> 3" by linarith
  then show ?thesis by (simp add: sample_numbers_def)
qed

lemma sample_controller:
  "valid_configuration (IntersectionController_new 5 40 3 1 2 False)"
  "cycles (IntersectionController_new 5 40 3 1 2 False) < INT_MAX"
  "at_rest (IntersectionController_new 5 40 3 1 2 False)"
  "yellow_fixed (IntersectionController_new 5 40 3 1 2 False)"
  "green_in_bounds (IntersectionController_new 5 40 3 1 2 False)"
  by (simp_all add: valid_configuration_new new_controller_fields
      at_rest_def yellow_fixed_def green_in_bounds_def int_range_def INT_MIN_def INT_MAX_def)

lemma sample_world:
  "valid_configuration (ctl (initial_world (IntersectionController_new 5 40 3 1 2 False)))"
  "cycles (ctl (initial_world (IntersectionController_new 5 40 3 1 2 False))) < INT_MAX"
  "at_rest (ctl (initial_world (IntersectionController_new 5 40 3 1 2 False)))"
  "yellow_fixed (ctl (initial_world (IntersectionController_new 5 40 3 1 2 False)))"
  "green_in_bounds (ctl (initial_world (IntersectionController_new 5 40 3 1 2 False)))"
  by (simp_all add: initial_world_simps sample_controller)

lemma bounds_record_trace: "bounds_record w = map (green_in_bounds \<circ> snd) (trace w)"
  by (simp add: bounds_record_def trace_def comp_def)

lemma compute_all_to_ns:
  assumes "valid_configuration c"
  shows "compute_and_set_green 100 0 c =
    Some (c\<lparr>ns := (ns c)\<lparr>green_duration := max_green c, yellow_duration := yellow_time c\<rparr>,
            ew := (ew c)\<lparr>green_duration := min_green c, yellow_duration := yellow_time c\<rparr>\<rparr>)"
proof -
  have "\<bar>max_green c - min_green c\<bar> \<le> 2 ^ 52"
    using assms by (simp add: valid_configuration_def int_range_def INT_MAX_def)
  then have "share_in_double 100 (100 + 0) (max_green c - min_green c) = max_green c - min_green c"
    "share_in_double 0 (100 + 0) (max_green c - min_green c) = 0"
    by (simp_all add: share_in_double_whole share_in_double_none)
  then show ?thesis
    using compute_and_set_green_positive [OF sample_values(3,4) _ assms] by simp
qed

section \<open>The output of a cycle\<close>

lemma history_emit:
  "history (emit s os w) = history w @ [\<lparr>executed = s, outs = os, after = ctl w\<rparr>]"
  by (simp add: emit_def)

lemma clock_reads_emit: "clock_reads (emit s os w) = clock_reads w"
  by (simp add: emit_def)

lemma transition_line_light:
  "transition_line t (light r (with_phase r' s' c)) s = transition_line t (light r c) s"
  by (cases r; cases r'; cases s; simp add: transition_line_def with_phase_def)

lemma history_set_and_print:
  "history (set_and_print clk r s w) = history w @
     [\<lparr>executed = SetAndPrint r s,
       outs = [Stdout (transition_line (clk (clock_reads w)) (light r (ctl w)) s)],
       after = with_phase r s (ctl w)\<rparr>]"
proof -
  have n: "name (light r (light_update r (\<lambda>l. l\<lparr>state := p\<rparr>) c)) = name (light r c)"
    "green_duration (light r (light_update r (\<lambda>l. l\<lparr>state := p\<rparr>) c)) = green_duration (light r c)"
    "yellow_duration (light r (light_update r (\<lambda>l. l\<lparr>state := p\<rparr>) c)) = yellow_duration (light r c)"
    for c p by (cases r; simp)+
  show ?thesis
    by (cases s)
       (simp_all add: set_and_print_def Let_def emit_def setw_current_time_str n
          transition_line_def with_phase_def)
qed

lemma clock_reads_set_and_print:
  "clock_reads (set_and_print clk r s w) = clock_reads w + 1"
  by (simp add: set_and_print_def Let_def emit_def)

lemma history_wait_and_print:
  "history (wait_and_print seconds w) = history w @
     [\<lparr>executed = WaitAndPrint seconds, outs = waited (realtime_delay (ctl w)) seconds,
       after = ctl w\<rparr>]"
  by (simp add: wait_and_print_def emit_def waited_def)

lemma clock_reads_wait_and_print: "clock_reads (wait_and_print seconds w) = clock_reads w"
  by (simp add: wait_and_print_def emit_def)

lemma entries_since_append: "history w' = history w @ t \<Longrightarrow> entries_since w w' = t"
  by (simp add: entries_since_def)

lemma cycle_history:
  assumes "compute_and_set_green n e (ctl w) = Some c'"
  shows "\<exists>w'. cycle clk n e k w = Some w' \<and>
     history w' = history w @
       [\<lparr>executed = PrintCycle k,
         outs = [Stdout (''=== Cycle '' @ string_of_int k @ '' ==='' @ newline)],
         after = ctl w\<rparr>,
        \<lparr>executed = ComputeAndSetGreen n e, outs = [], after = c'\<rparr>,
        \<lparr>executed = SetAndPrint NS GREEN,
         outs = [Stdout (transition_line (clk (clock_reads w)) (ns c') GREEN)],
         after = with_phase NS GREEN c'\<rparr>,
        \<lparr>executed = WaitAndPrint (green_duration (ns c')),
         outs = waited (realtime_delay c') (green_duration (ns c')),
         after = with_phase NS GREEN c'\<rparr>,
        \<lparr>executed = SetAndPrint NS YELLOW,
         outs = [Stdout (transition_line (clk (clock_reads w + 1)) (ns c') YELLOW)],
         after = with_phase NS YELLOW c'\<rparr>,
        \<lparr>executed = WaitAndPrint (yellow_duration (ns c')),
         outs = waited (realtime_delay c') (yellow_duration (ns c')),
         after = with_phase NS YELLOW c'\<rparr>,
        \<lparr>executed = SetAndPrint NS RED,
         outs = [Stdout (transition_line (clk (clock_reads w + 2)) (ns c') RED)],
         after = with_phase NS RED c'\<rparr>,
        \<lparr>executed = WaitAndPrint (all_red_time c'),
         outs = waited (realtime_delay c') (all_red_time c'),
         after = with_phase NS RED c'\<rparr>,
        \<lparr>executed = SetAndPrint EW GREEN,
         outs = [Stdout (transition_line (clk (clock_reads w + 3)) (ew c') GREEN)],
         after = with_phase EW GREEN (with_phase NS RED c')\<rparr>,
        \<lparr>executed = WaitAndPrint (green_duration (ew c')),
         outs = waited (realtime_delay c') (green_duration (ew c')),
         after = with_phase EW GREEN (with_phase NS RED c')\<rparr>,
        \<lparr>executed = SetAndPrint EW YELLOW,
         outs = [Stdout (transition_line (clk (clock_reads w + 4)) (ew c') YELLOW)],
         after = with_phase EW YELLOW (with_phase NS RED c')\<rparr>,
        \<lparr>executed = WaitAndPrint (yellow_duration (ew c')),
         outs = waited (realtime_delay c') (yellow_duration (ew c')),
         after = with_phase EW YELLOW (with_phase NS RED c')\<rparr>,
        \<lparr>executed = SetAndPrint EW RED,
         outs = [Stdout (transition_line (clk (clock_reads w + 5)) (ew c') RED)],
         after = with_phase EW RED (with_phase NS RED c')\<rparr>,
        \<lparr>executed = WaitAndPrint (all_red_time c'),
         outs = waited (realtime_delay c') (all_red_time c'),
         after = with_phase EW RED (with_phase NS RED c')\<rparr>,
        \<lparr>executed = PrintNewline, outs = [Stdout newline],
         after = with_phase EW RED (with_phase NS RED c')\<rparr>]"
proof -
  have l: "transition_line t (ns (with_phase r s c)) p = transition_line t (ns c) p"
    "transition_line t (ew (with_phase r s c)) p = transition_line t (ew c) p" for t r s c p
    using transition_line_light [of t NS r s c p] transition_line_light [of t EW r s c p]
    by simp_all
  have k: "clock_reads w + 2 = Suc (Suc (clock_reads w))"
    "clock_reads w + 3 = Suc (Suc (Suc (clock_reads w)))"
    "clock_reads w + 4 = Suc (Suc (Suc (Suc (clock_reads w))))"
    "clock_reads w + 5 = Suc (Suc (Suc (Suc (Suc (clock_reads w)))))"
    by simp_all
  show ?thesis
    using assms
    by (simp add: k cycle_def Let_def run_phase_def ctl_emit history_emit clock_reads_emit
        ctl_set_and_print history_set_and_print clock_reads_set_and_print
        ctl_wait_and_print history_wait_and_print clock_reads_wait_and_print
        with_phase_twice with_phase_fields l)
qed


lemma phase_changes_append:
  "phase_changes c (cs @ ds) = phase_changes c cs @ phase_changes (last (c # cs)) ds"
  by (induction cs arbitrary: c) simp_all

lemma cycle_trace_phase_changes:
  assumes "at_rest c0" "at_rest c" "state (ns c') = state (ns c)" "state (ew c') = state (ew c)"
  shows "phase_changes c0 (map snd (cycle_trace n e k c c')) =
     [(NS, GREEN), (NS, YELLOW), (NS, RED), (EW, GREEN), (EW, YELLOW), (EW, RED)]"
  using assms by (simp add: cycle_trace_def at_rest_def with_phase_state)

lemma sample_strings:
  "string_of_int 0 = ''0''" "string_of_int 1 = ''1''" "string_of_int 3 = ''3''"
  "string_of_int 5 = ''5''" "string_of_int 40 = ''40''"
  "current_time_str (stopped_clock j) = ''09:05:07''"
  by (code_simp, code_simp, code_simp, code_simp, code_simp)
     (simp add: current_time_str_def stopped_clock_def two_digits_def digit_chars)

lemma sample_allocation:
  assumes "valid_configuration c" "compute_and_set_green 100 0 c = Some c'"
  shows "ns c' = (ns c)\<lparr>green_duration := max_green c, yellow_duration := yellow_time c\<rparr>"
    "ew c' = (ew c)\<lparr>green_duration := min_green c, yellow_duration := yellow_time c\<rparr>"
  using assms(2) compute_all_to_ns [OF assms(1)] by auto

section \<open>The claims\<close>

subsection \<open>C1\<close>

text \<open>
  C1, what the program does: in random mode a run with cycle count \<open>N\<close> performs
  \<open>N * N\<close> cycles, not \<open>N\<close>. Each of the \<open>N\<close> pairs of numbers drawn is
  handed to \<open>simulate_with_inputs\<close>, which runs \<open>N\<close> cycles on it, so every pair
  is used for \<open>N\<close> consecutive allocations. (In manual mode the cycle count \<open>N\<close>
  gives \<open>N\<close> cycles: \<open>manual_mode_runs_each_cycle_once\<close>.)
\<close>

theorem random_mode_repeats_each_pair:
  assumes "0 \<le> N" and "N < INT_MAX" and "\<forall>j. 0 \<le> rng j \<and> rng j \<le> 100" and "mode \<noteq> 1"
  shows "\<exists>w. main_from_inputs clk rng N mode realtime ns_d ew_d = Some w \<and>
           allocations w =
             concat (map (\<lambda>j. replicate (nat N) (rng (2 * j), rng (2 * j + 1))) [0..<nat N]) \<and>
           length (allocations w) = nat N * nat N"
proof -
  define w0 where "w0 = initial_world (IntersectionController_new 5 40 3 1 N realtime)"
  have v: "valid_density (rng j)" for j
    using assms(3) [rule_format, of j]
    by (simp add: valid_density_def int_range_def INT_MIN_def INT_MAX_def)
  have c0: "valid_configuration (ctl w0)" "cycles (ctl w0) = N"
    by (simp_all add: w0_def initial_world_def valid_configuration_new small_ints)
       (simp add: IntersectionController_new_def Let_def)
  have a0: "allocations w0 = []"
    by (simp add: w0_def initial_world_def allocations_def statements_def)
  have "\<exists>w1. random_loop clk rng N 0 w0 = Some w1 \<and>
    allocations w1 = allocations w0 @
       concat (map (\<lambda>j. replicate (nat N) (rng (2 * j), rng (2 * j + 1))) [nat 0..<nat N])"
    by (rule random_loop_allocations) (use v assms(2) c0 in simp_all)
  then obtain w1 where w1: "random_loop clk rng N 0 w0 = Some w1"
    "allocations w1 = allocations w0 @
       concat (map (\<lambda>j. replicate (nat N) (rng (2 * j), rng (2 * j + 1))) [nat 0..<nat N])"
    by blast
  define w where "w = emit PrintFinished [Stdout (newline @ ''Simulation finished.'' @ newline)] w1"
  have "main_from_inputs clk rng N mode realtime ns_d ew_d = Some w"
    using assms(4) w1(1) by (simp add: main_from_inputs_def w0_def w_def Let_def)
  moreover have a: "allocations w =
      concat (map (\<lambda>j. replicate (nat N) (rng (2 * j), rng (2 * j + 1))) [0..<nat N])"
    by (simp add: w_def allocations_emit w1(2) a0)
  moreover have "length (allocations w) = nat N * nat N"
    by (simp add: a length_concat comp_def sum_list_triv)
  ultimately show ?thesis by blast
qed

theorem random_mode_repeats_each_pair_witness:
  "(0::int) \<le> 2 \<and> 2 < INT_MAX \<and> (\<forall>j. 0 \<le> sample_numbers j \<and> sample_numbers j \<le> 100) \<and>
   (2::int) \<noteq> 1 \<and>
   (\<exists>w. main_from_inputs stopped_clock sample_numbers 2 2 False 0 0 = Some w \<and>
        allocations w = [(10, 20), (10, 20), (30, 40), (30, 40)] \<and>
        length (allocations w) = 4)"
proof -
  have e: "concat (map (\<lambda>j. replicate (nat 2) (sample_numbers (2 * j), sample_numbers (2 * j + 1)))
             [0..<nat 2]) = [(10, 20), (10, 20), (30, 40), (30, 40)]"
    by code_simp
  have h: "(0::int) \<le> 2" "(2::int) < INT_MAX"
    "\<forall>j. 0 \<le> sample_numbers j \<and> sample_numbers j \<le> 100" "(2::int) \<noteq> 1"
    using sample_numbers_range by (simp_all add: sample_values)
  obtain w where w: "main_from_inputs stopped_clock sample_numbers 2 2 False 0 0 = Some w"
    "allocations w = concat (map (\<lambda>j. replicate (nat 2)
        (sample_numbers (2 * j), sample_numbers (2 * j + 1))) [0..<nat 2])"
    using random_mode_repeats_each_pair [OF h, of stopped_clock False 0 0] by blast
  have "allocations w = [(10, 20), (10, 20), (30, 40), (30, 40)]"
    by (simp only: w(2) e)
  then show ?thesis using h w(1) by simp
qed

subsection \<open>C2\<close>

text \<open>
  C2, counterexample: on the densities 23 and 47 with the bounds 5 and 40 the program
  allocates 17 and 28 seconds, while the formula of the claim, evaluated exactly, gives
  17 and 29 with either of the two roundings the specification names: the exact share of
  East-West is the tie 23.5, and the product computed in double arithmetic lies just
  below it.
\<close>

theorem allocation_differs_from_exact_formula:
  "allocate 23 47 5 40 = Some (17, 28) \<and>
   spec_allocate round_half_away 23 47 5 40 = (17, 29) \<and>
   spec_allocate round_half_even 23 47 5 40 = (17, 29)"
proof -
  have "allocate 23 47 5 40 = Some (5 + share_in_double 23 (23 + 47) (40 - 5),
                                    5 + share_in_double 47 (23 + 47) (40 - 5))"
    by (rule allocate_positive) (simp_all add: valid_density_def small_ints)
  then have "allocate 23 47 5 40 = Some (17, 28)"
    by (simp add: share_23_70_35 share_47_70_35)
  then show ?thesis by (simp add: spec_allocate_23_47)
qed

text \<open>
  C2, as amended: for non-negative densities with a positive sum and bounds
  \<open>max_green \<ge> min_green \<ge> 0\<close>, the allocation is defined and gives each direction
  \<open>min_green\<close> plus its share of \<open>max_green - min_green\<close>, where the quotient
  \<open>density / total\<close> and its product with the budget are each rounded to a
  \<open>double\<close> and the result is rounded to an integer, halves away from zero. The share
  lies between 0 and the budget, so the clamping changes nothing. Whenever the budget
  times the total density is at most \<open>2 ^ 50\<close>, the share is an integer nearest to the
  exact share, an exact tie going to either neighbour. In particular
  \<open>allocate 100 0 5 40\<close> is \<open>(40, 5)\<close>.
\<close>

theorem allocation_in_double_arithmetic:
  assumes "valid_density ns_density" and "valid_density ew_density"
    and "0 < ns_density + ew_density" and "valid_configuration c"
  shows "compute_and_set_green ns_density ew_density c =
      Some (c\<lparr>ns := (ns c)\<lparr>green_duration := min_green c +
                     share_in_double ns_density (ns_density + ew_density)
                       (max_green c - min_green c),
                   yellow_duration := yellow_time c\<rparr>,
              ew := (ew c)\<lparr>green_duration := min_green c +
                     share_in_double ew_density (ns_density + ew_density)
                       (max_green c - min_green c),
                   yellow_duration := yellow_time c\<rparr>\<rparr>) \<and>
    0 \<le> share_in_double ns_density (ns_density + ew_density) (max_green c - min_green c) \<and>
    share_in_double ns_density (ns_density + ew_density) (max_green c - min_green c)
      \<le> max_green c - min_green c \<and>
    0 \<le> share_in_double ew_density (ns_density + ew_density) (max_green c - min_green c) \<and>
    share_in_double ew_density (ns_density + ew_density) (max_green c - min_green c)
      \<le> max_green c - min_green c \<and>
    ((max_green c - min_green c) * (ns_density + ew_density) \<le> 2 ^ 50 \<longrightarrow>
       nearest_integer
         (share_in_double ns_density (ns_density + ew_density) (max_green c - min_green c))
         (of_int ns_density * of_int (max_green c - min_green c)
            / of_int (ns_density + ew_density)) \<and>
       nearest_integer
         (share_in_double ew_density (ns_density + ew_density) (max_green c - min_green c))
         (of_int ew_density * of_int (max_green c - min_green c)
            / of_int (ns_density + ew_density))) \<and>
    allocate 100 0 5 40 = Some (40, 5)"
proof -
  define t where "t = ns_density + ew_density"
  define x where "x = max_green c - min_green c"
  have n0: "0 \<le> ns_density" and e0: "0 \<le> ew_density"
    using assms(1,2) by (simp_all add: valid_density_def)
  have le: "ns_density \<le> t" "ew_density \<le> t" using n0 e0 by (simp_all add: t_def)
  have t0: "0 < t" using assms(3) by (simp add: t_def)
  have x0: "0 \<le> x" and x52: "x \<le> 2 ^ 52"
    using assms(4) by (simp_all add: valid_configuration_def int_range_def INT_MAX_def x_def)
  note bn = share_in_double_bounds [OF n0 le(1) t0 x0 x52]
  note be = share_in_double_bounds [OF e0 le(2) t0 x0 x52]
  have near: "nearest_integer (share_in_double ns_density t x)
                (of_int ns_density * of_int x / of_int t) \<and>
              nearest_integer (share_in_double ew_density t x)
                (of_int ew_density * of_int x / of_int t)"
    if "x * t \<le> 2 ^ 50"
    using share_in_double_nearest [OF n0 le(1) t0 x0 that]
      share_in_double_nearest [OF e0 le(2) t0 x0 that] by simp
  show ?thesis
    unfolding t_def [symmetric] x_def [symmetric]
    using compute_and_set_green_positive [OF assms, folded t_def x_def] bn(2,3) be(2,3) near
      allocate_all_budget_to_ns
    by blast
qed

theorem allocation_in_double_arithmetic_witness:
  "valid_density 100 \<and> valid_density 0 \<and> (0::int) < 100 + 0 \<and>
   valid_configuration (IntersectionController_new 5 40 3 1 5 True) \<and>
   ((40::int) - 5) * (100 + 0) \<le> 2 ^ 50 \<and>
   nearest_integer (share_in_double 100 100 35) 35 \<and>
   allocate 100 0 5 40 = Some (40, 5)"
proof -
  have v: "valid_density 100" "valid_density 0" "(0::int) < 100 + 0"
    "valid_configuration (IntersectionController_new 5 40 3 1 5 True)"
    by (simp_all add: valid_density_def small_ints valid_configuration_new)
  have s: "share_in_double 100 100 35 = 35" "share_in_double 0 100 35 = 0"
    by (simp_all add: share_in_double_whole share_in_double_none)
  from allocation_in_double_arithmetic [OF v]
  have "compute_and_set_green 100 0 (IntersectionController_new 5 40 3 1 5 True) =
      Some ((IntersectionController_new 5 40 3 1 5 True)
        \<lparr>ns := (ns (IntersectionController_new 5 40 3 1 5 True))
                 \<lparr>green_duration := 40, yellow_duration := 3\<rparr>,
          ew := (ew (IntersectionController_new 5 40 3 1 5 True))
                 \<lparr>green_duration := 5, yellow_duration := 3\<rparr>\<rparr>)"
    and "nearest_integer (share_in_double 100 100 35) 35"
    by (simp_all add: IntersectionController_new_def Let_def s)
  then show ?thesis using v by (simp add: allocate_def)
qed

subsection \<open>C3\<close>

text \<open>
  C3, counterexample: with the bounds 20 and 40 the lights are constructed with the green
  duration 10, and they keep it up to the first allocation: at the first two points of
  a run of one cycle the green durations are outside \<open>[min_green, max_green]\<close>.
\<close>

theorem green_out_of_bounds_before_first_allocation:
  "map_option bounds_record
     (simulate_with_inputs stopped_clock 100 0
        (initial_world (IntersectionController_new 20 40 3 1 1 False))) =
   Some [False, False, True, True, True, True, True, True, True, True, True, True, True, True,
         True, True]"
proof -
  define c0 where "c0 = IntersectionController_new 20 40 3 1 1 False"
  define c1 where "c1 = c0\<lparr>ns := (ns c0)\<lparr>green_duration := 40, yellow_duration := 3\<rparr>,
                           ew := (ew c0)\<lparr>green_duration := 20, yellow_duration := 3\<rparr>\<rparr>"
  define w0 where "w0 = emit PrintSimulating
                [Stdout (newline @ ''Simulating '' @ string_of_int (cycles c0) @
                         '' cycles with densities: NS='' @ string_of_int 100 @
                         ''  EW='' @ string_of_int 0 @ newline @ newline)] (initial_world c0)"
  have w0: "ctl w0 = c0" "trace w0 = [(PrintSimulating, c0)]"
    by (simp_all add: w0_def ctl_emit trace_emit initial_world_simps)
  have v: "valid_configuration c0"
    by (simp add: c0_def valid_configuration_new int_range_def INT_MIN_def INT_MAX_def)
  have "compute_and_set_green 100 0 (ctl w0) = Some c1"
    using compute_all_to_ns [OF v] by (simp add: w0(1) c1_def) (simp add: c0_def new_controller_fields)
  then obtain w1 where w1: "cycle stopped_clock 100 0 1 w0 = Some w1"
    "ctl w1 = with_phase EW RED (with_phase NS RED c1)"
    "trace w1 = trace w0 @ cycle_trace 100 0 1 (ctl w0) c1"
    using cycle_result [of 100 0 w0 c1 stopped_clock 1] by blast
  have n: "cycles (ctl w0) = 1" "cycles (ctl w1) = 1"
    by (simp_all add: w0(1) w1(2) with_phase_fields c1_def) (simp_all add: c0_def new_controller_fields)
  have i: "int_result 2 = Some 2"
    by (simp add: int_result_def int_range_def INT_MIN_def INT_MAX_def)
  have "simulate_loop stopped_clock 100 0 2 w1 = Some w1"
    by (subst simulate_loop.simps) (simp add: n)
  then have "simulate_loop stopped_clock 100 0 1 w0 = Some w1"
    by (subst simulate_loop.simps) (simp add: n w1(1) i)
  then have run: "simulate_with_inputs stopped_clock 100 0 (initial_world c0) = Some w1"
    by (simp add: simulate_with_inputs_def Let_def w0_def initial_world_simps)
  have b: "\<not> green_in_bounds c0" "green_in_bounds c1"
    by (simp_all add: green_in_bounds_def c1_def) (simp_all add: c0_def new_controller_fields)
  have "bounds_record w1 =
    [False, False, True, True, True, True, True, True, True, True, True, True, True, True,
     True, True]"
    by (simp add: bounds_record_trace w1(3) w0 cycle_trace_def green_in_bounds_with_phase b)
  then show ?thesis using run by (simp add: c0_def)
qed

text \<open>
  C3, as amended: in a run over a configuration with \<open>max_green \<ge> min_green \<ge> 0\<close> and
  non-negative densities, the green durations of both lights lie within
  \<open>[min_green, max_green]\<close> after the first allocation and at every later point of the
  run; if they lie within the bounds when the run starts, they do at every point of it.
  A newly constructed controller has the green durations 10, within the bounds exactly
  when \<open>min_green \<le> 10 \<le> max_green\<close>.
\<close>

theorem green_in_bounds_from_first_allocation:
  assumes "valid_density ns_density" and "valid_density ew_density"
    and "valid_configuration (ctl w)" and "cycles (ctl w) < INT_MAX"
  shows "(\<exists>w'. simulate_with_inputs clk ns_density ew_density w = Some w' \<and>
           (\<forall>(s, c) \<in> set (from_first_allocation (since w w')). green_in_bounds c) \<and>
           (green_in_bounds (ctl w) \<longrightarrow> (\<forall>(s, c) \<in> set (since w w'). green_in_bounds c)) \<and>
           (1 \<le> cycles (ctl w) \<longrightarrow> green_in_bounds (ctl w'))) \<and>
         (green_in_bounds (IntersectionController_new minG maxG yellow allred cycles0 realtime)
            \<longleftrightarrow> minG \<le> 10 \<and> 10 \<le> maxG)"
proof -
  define N where "N = cycles (ctl w)"
  define G where "G = green_in_bounds (ctl w)"
  define I :: "int \<Rightarrow> IntersectionController \<Rightarrow> bool"
    where "I = (\<lambda>k c. 1 < k \<or> G \<longrightarrow> green_in_bounds c)"
  define Q :: "int \<Rightarrow> (stmt \<times> IntersectionController) list \<Rightarrow> bool"
    where "Q = (\<lambda>k t. \<exists>c s c' rest. t = (PrintCycle k, c) # (s, c') # rest \<and> I k c \<and>
                 allocation_of s \<noteq> [] \<and>
                 (\<forall>(s, c) \<in> set ((s, c') # rest). green_in_bounds c))"
  define P :: "int \<Rightarrow> (stmt \<times> IntersectionController) list \<Rightarrow> bool"
    where "P = (\<lambda>k t. (1 < k \<or> G \<longrightarrow> (\<forall>(s, c) \<in> set t. green_in_bounds c)) \<and>
                 (\<forall>(s, c) \<in> set (from_first_allocation t). green_in_bounds c))"
  have "\<exists>w'. simulate_with_inputs clk ns_density ew_density w = Some w' \<and>
           I (max 1 (N + 1)) (ctl w') \<and> valid_configuration (ctl w') \<and> cycles (ctl w') = N \<and>
           (\<exists>t. trace w' = trace w @ (PrintSimulating, ctl w) # t \<and> P 1 t)"
  proof (rule simulate_with_inputs_rule [where I = I and Q = Q and P = P and N = N])
    show "I (k + 1) (with_phase EW RED (with_phase NS RED c')) \<and>
          Q k (cycle_trace ns_density ew_density k c c')"
      if "I k c" "valid_configuration c" "compute_and_set_green ns_density ew_density c = Some c'"
      for k c c'
    proof -
      have b: "green_in_bounds c'"
        using assms(1,2) that(2,3) by (rule compute_and_set_green_bounds)
      then have "I (k + 1) (with_phase EW RED (with_phase NS RED c'))"
        by (simp add: I_def green_in_bounds_with_phase)
      moreover have "Q k (cycle_trace ns_density ew_density k c c')"
        using b that(1) by (simp add: Q_def cycle_trace_def green_in_bounds_with_phase)
      ultimately show ?thesis by simp
    qed
    show "P k []" for k by (simp add: P_def from_first_allocation_def)
    show "P k (t @ u)" if k1: "1 \<le> k" and Qt: "Q k t" and Pu: "P (k + 1) u" for k t u
    proof -
      obtain c s c' rest where t: "t = (PrintCycle k, c) # (s, c') # rest" "I k c"
        "allocation_of s \<noteq> []" "\<forall>(s, c) \<in> set ((s, c') # rest). green_in_bounds c"
        using Qt unfolding Q_def by blast
      have u: "\<forall>(s, c) \<in> set u. green_in_bounds c" using k1 Pu by (simp add: P_def)
      have "from_first_allocation (t @ u) = (s, c') # rest @ u"
        using t(3) by (simp add: t(1) from_first_allocation_skip from_first_allocation_found)
      then show ?thesis using t(2,4) u by (auto simp: P_def t(1) I_def)
    qed
    show "I 1 (ctl w)" by (simp add: I_def G_def)
  qed (use assms in \<open>simp_all add: N_def\<close>)
  then obtain w' t where w': "simulate_with_inputs clk ns_density ew_density w = Some w'"
    "I (max 1 (N + 1)) (ctl w')" "trace w' = trace w @ (PrintSimulating, ctl w) # t" "P 1 t"
    by blast
  have s: "since w w' = (PrintSimulating, ctl w) # t" using w'(3) by (rule since_append)
  have "\<forall>(s, c) \<in> set (from_first_allocation (since w w')). green_in_bounds c"
    using w'(4) by (simp add: s from_first_allocation_skip P_def)
  moreover have "green_in_bounds (ctl w) \<longrightarrow> (\<forall>(s, c) \<in> set (since w w'). green_in_bounds c)"
    using w'(4) by (simp add: s P_def G_def)
  moreover have "1 \<le> cycles (ctl w) \<longrightarrow> green_in_bounds (ctl w')"
    using w'(2) by (simp add: I_def N_def)
  moreover have
    "green_in_bounds (IntersectionController_new minG maxG yellow allred cycles0 realtime)
       \<longleftrightarrow> minG \<le> 10 \<and> 10 \<le> maxG"
    by (auto simp: green_in_bounds_def IntersectionController_new_def Let_def
        TrafficLight_new_def)
  ultimately show ?thesis using w'(1) by blast
qed

theorem green_in_bounds_from_first_allocation_witness:
  "valid_density 10 \<and> valid_density 20 \<and>
   valid_configuration (ctl (initial_world (IntersectionController_new 5 40 3 1 2 False))) \<and>
   cycles (ctl (initial_world (IntersectionController_new 5 40 3 1 2 False))) < INT_MAX \<and>
   green_in_bounds (ctl (initial_world (IntersectionController_new 5 40 3 1 2 False))) \<and>
   (1::int) \<le> cycles (ctl (initial_world (IntersectionController_new 5 40 3 1 2 False))) \<and>
   (\<exists>w'. simulate_with_inputs stopped_clock 10 20
            (initial_world (IntersectionController_new 5 40 3 1 2 False)) = Some w' \<and>
      (\<forall>(s, c) \<in> set (from_first_allocation
          (since (initial_world (IntersectionController_new 5 40 3 1 2 False)) w')).
         green_in_bounds c) \<and>
      (\<forall>(s, c) \<in> set (since (initial_world (IntersectionController_new 5 40 3 1 2 False)) w').
         green_in_bounds c) \<and>
      green_in_bounds (ctl w'))"
  using green_in_bounds_from_first_allocation [OF sample_values(1,2) sample_world(1,2),
      of stopped_clock 5 40 3 1 2 False]
  by (simp add: sample_values sample_controller initial_world_simps new_controller_fields)

subsection \<open>C4\<close>

text \<open>
  C4: in a run of \<open>simulate_with_inputs\<close> that starts with both lights red, the
  phases of the lights change, cycle after cycle, exactly six times, North-South to
  green, to yellow, to red, then East-West to green, to yellow, to red; these changes are
  read off the controller states of the run, and they are also exactly the calls of
  \<open>set_and_print\<close>. Within a cycle the entries that change a phase are these six, in
  this order, and each of them writes the line of its transition, with the direction,
  the new phase and the green duration allocated in this cycle or the yellow duration.
\<close>

theorem six_transitions_per_cycle:
  assumes "valid_density ns_density" and "valid_density ew_density"
    and "valid_configuration (ctl w)" and "cycles (ctl w) < INT_MAX"
    and "at_rest (ctl w)"
  shows "(\<exists>w'. simulate_with_inputs clk ns_density ew_density w = Some w' \<and>
            transitions w' = transitions w @
              concat (replicate (nat (cycles (ctl w)))
                [(NS, GREEN), (NS, YELLOW), (NS, RED), (EW, GREEN), (EW, YELLOW), (EW, RED)]) \<and>
            phase_changes (ctl w) (map snd (since w w')) =
              concat (replicate (nat (cycles (ctl w)))
                [(NS, GREEN), (NS, YELLOW), (NS, RED), (EW, GREEN), (EW, YELLOW), (EW, RED)])) \<and>
         (\<exists>c' w'. compute_and_set_green ns_density ew_density (ctl w) = Some c' \<and>
            cycle clk ns_density ew_density k w = Some w' \<and>
            phase_events (ctl w) (entries_since w w') =
              [((NS, GREEN), [Stdout (transition_line (clk (clock_reads w)) (ns c') GREEN)]),
               ((NS, YELLOW), [Stdout (transition_line (clk (clock_reads w + 1)) (ns c') YELLOW)]),
               ((NS, RED), [Stdout (transition_line (clk (clock_reads w + 2)) (ns c') RED)]),
               ((EW, GREEN), [Stdout (transition_line (clk (clock_reads w + 3)) (ew c') GREEN)]),
               ((EW, YELLOW), [Stdout (transition_line (clk (clock_reads w + 4)) (ew c') YELLOW)]),
               ((EW, RED), [Stdout (transition_line (clk (clock_reads w + 5)) (ew c') RED)])])"
proof -
  define six where "six = [(NS, GREEN), (NS, YELLOW), (NS, RED), (EW, GREEN), (EW, YELLOW), (EW, RED)]"
  define N where "N = cycles (ctl w)"
  define Q :: "int \<Rightarrow> (stmt \<times> IntersectionController) list \<Rightarrow> bool"
    where "Q = (\<lambda>k t. t \<noteq> [] \<and> at_rest (snd (last t)) \<and>
                 concat (map (transition_of \<circ> fst) t) = six \<and>
                 (\<forall>c0. at_rest c0 \<longrightarrow> phase_changes c0 (map snd t) = six))"
  define P :: "int \<Rightarrow> (stmt \<times> IntersectionController) list \<Rightarrow> bool"
    where "P = (\<lambda>k t.
                 concat (map (transition_of \<circ> fst) t) = concat (replicate (nat (N + 1 - k)) six) \<and>
                 (\<forall>c0. at_rest c0 \<longrightarrow>
                    phase_changes c0 (map snd t) = concat (replicate (nat (N + 1 - k)) six)))"
  have "\<exists>w'. simulate_with_inputs clk ns_density ew_density w = Some w' \<and>
           at_rest (ctl w') \<and> valid_configuration (ctl w') \<and> cycles (ctl w') = N \<and>
           (\<exists>t. trace w' = trace w @ (PrintSimulating, ctl w) # t \<and> P 1 t)"
  proof (rule simulate_with_inputs_rule [where I = "\<lambda>k. at_rest" and Q = Q and P = P and N = N])
    show "at_rest (with_phase EW RED (with_phase NS RED c')) \<and>
          Q k (cycle_trace ns_density ew_density k c c')"
      if "at_rest c" "compute_and_set_green ns_density ew_density c = Some c'" for k c c'
    proof -
      note f = compute_and_set_green_frame(1,2) [OF that(2)]
      have "cycle_trace ns_density ew_density k c c' \<noteq> []"
        "snd (last (cycle_trace ns_density ew_density k c c')) =
           with_phase EW RED (with_phase NS RED c')"
        by (simp_all add: cycle_trace_def)
      then show ?thesis
        using cycle_trace_phase_changes [OF _ that(1) f]
        by (simp add: Q_def at_rest_after_cycle cycle_trace_transitions six_def)
    qed
    show "P k []" if "N < k" for k using that by (simp add: P_def)
    show "P k (t @ u)" if k: "k \<le> N" and Qt: "Q k t" and Pu: "P (k + 1) u" for k t u
    proof -
      have n: "nat (N + 1 - k) = Suc (nat (N + 1 - (k + 1)))" using k by simp
      have l: "last (c0 # map snd t) = snd (last t)" for c0
        using Qt by (simp add: Q_def last_map)
      show ?thesis
        using Qt Pu by (simp add: P_def Q_def n phase_changes_append l del: last.simps)
    qed
  qed (use assms in \<open>simp_all add: N_def\<close>)
  then obtain w' t where w': "simulate_with_inputs clk ns_density ew_density w = Some w'"
    "trace w' = trace w @ (PrintSimulating, ctl w) # t" "P 1 t"
    by blast
  have s: "since w w' = (PrintSimulating, ctl w) # t" using w'(2) by (rule since_append)
  have "transitions w' = transitions w @ concat (replicate (nat N) six)"
    using w'(3) by (simp add: transitions_trace w'(2) P_def)
  moreover have "phase_changes (ctl w) (map snd (since w w')) = concat (replicate (nat N) six)"
    using w'(3) assms(5) by (simp add: s P_def)
  ultimately have run: "\<exists>w'. simulate_with_inputs clk ns_density ew_density w = Some w' \<and>
            transitions w' = transitions w @
              concat (replicate (nat (cycles (ctl w)))
                [(NS, GREEN), (NS, YELLOW), (NS, RED), (EW, GREEN), (EW, YELLOW), (EW, RED)]) \<and>
            phase_changes (ctl w) (map snd (since w w')) =
              concat (replicate (nat (cycles (ctl w)))
                [(NS, GREEN), (NS, YELLOW), (NS, RED), (EW, GREEN), (EW, YELLOW), (EW, RED)])"
    using w'(1) by (simp add: N_def six_def)
  obtain c' where c': "compute_and_set_green ns_density ew_density (ctl w) = Some c'"
    using compute_and_set_green_valid [OF assms(1-3)] by metis
  note f = compute_and_set_green_frame(1,2) [OF c']
  obtain w1 where w1: "cycle clk ns_density ew_density k w = Some w1"
    and h: "entries_since w w1 = drop (length (history w)) (history w1)"
      "history w1 = history w @ drop (length (history w)) (history w1)"
    using cycle_history [OF c', of clk k] by (auto simp: entries_since_def)
  have "phase_events (ctl w) (entries_since w w1) =
              [((NS, GREEN), [Stdout (transition_line (clk (clock_reads w)) (ns c') GREEN)]),
               ((NS, YELLOW), [Stdout (transition_line (clk (clock_reads w + 1)) (ns c') YELLOW)]),
               ((NS, RED), [Stdout (transition_line (clk (clock_reads w + 2)) (ns c') RED)]),
               ((EW, GREEN), [Stdout (transition_line (clk (clock_reads w + 3)) (ew c') GREEN)]),
               ((EW, YELLOW), [Stdout (transition_line (clk (clock_reads w + 4)) (ew c') YELLOW)]),
               ((EW, RED), [Stdout (transition_line (clk (clock_reads w + 5)) (ew c') RED)])]"
    using cycle_history [OF c', of clk k] w1 assms(5) f
    by (auto simp: entries_since_def at_rest_def with_phase_state)
  with c' w1 have "\<exists>c' w'. compute_and_set_green ns_density ew_density (ctl w) = Some c' \<and>
            cycle clk ns_density ew_density k w = Some w' \<and>
            phase_events (ctl w) (entries_since w w') =
              [((NS, GREEN), [Stdout (transition_line (clk (clock_reads w)) (ns c') GREEN)]),
               ((NS, YELLOW), [Stdout (transition_line (clk (clock_reads w + 1)) (ns c') YELLOW)]),
               ((NS, RED), [Stdout (transition_line (clk (clock_reads w + 2)) (ns c') RED)]),
               ((EW, GREEN), [Stdout (transition_line (clk (clock_reads w + 3)) (ew c') GREEN)]),
               ((EW, YELLOW), [Stdout (transition_line (clk (clock_reads w + 4)) (ew c') YELLOW)]),
               ((EW, RED), [Stdout (transition_line (clk (clock_reads w + 5)) (ew c') RED)])]"
    by (intro exI [of _ c'] exI [of _ w1] conjI)
  with run show ?thesis by (rule conjI)
qed

theorem six_transitions_per_cycle_witness:
  "valid_density 100 \<and> valid_density 0 \<and>
   valid_configuration (ctl (initial_world (IntersectionController_new 5 40 3 1 2 False))) \<and>
   cycles (ctl (initial_world (IntersectionController_new 5 40 3 1 2 False))) < INT_MAX \<and>
   at_rest (ctl (initial_world (IntersectionController_new 5 40 3 1 2 False))) \<and>
   (\<exists>w'. simulate_with_inputs stopped_clock 100 0
            (initial_world (IntersectionController_new 5 40 3 1 2 False)) = Some w' \<and>
      transitions w' =
        [(NS, GREEN), (NS, YELLOW), (NS, RED), (EW, GREEN), (EW, YELLOW), (EW, RED),
         (NS, GREEN), (NS, YELLOW), (NS, RED), (EW, GREEN), (EW, YELLOW), (EW, RED)] \<and>
      phase_changes (IntersectionController_new 5 40 3 1 2 False)
        (map snd (since (initial_world (IntersectionController_new 5 40 3 1 2 False)) w')) =
        [(NS, GREEN), (NS, YELLOW), (NS, RED), (EW, GREEN), (EW, YELLOW), (EW, RED),
         (NS, GREEN), (NS, YELLOW), (NS, RED), (EW, GREEN), (EW, YELLOW), (EW, RED)]) \<and>
   (\<exists>w'. cycle stopped_clock 100 0 1
            (initial_world (IntersectionController_new 5 40 3 1 2 False)) = Some w' \<and>
      phase_events (IntersectionController_new 5 40 3 1 2 False)
        (entries_since (initial_world (IntersectionController_new 5 40 3 1 2 False)) w') =
        [((NS, GREEN), [Stdout (''[09:05:07] North-South -> GREEN (will last 40s)'' @ newline)]),
         ((NS, YELLOW), [Stdout (''[09:05:07] North-South -> YELLOW (will last 3s)'' @ newline)]),
         ((NS, RED),
          [Stdout (''[09:05:07] North-South -> RED (will last until other gets greens)'' @ newline)]),
         ((EW, GREEN), [Stdout (''[09:05:07] East-West -> GREEN (will last 5s)'' @ newline)]),
         ((EW, YELLOW), [Stdout (''[09:05:07] East-West -> YELLOW (will last 3s)'' @ newline)]),
         ((EW, RED),
          [Stdout (''[09:05:07] East-West -> RED (will last until other gets greens)'' @ newline)])])"
proof -
  define c0 where "c0 = IntersectionController_new 5 40 3 1 2 False"
  have h: "valid_configuration (ctl (initial_world c0))" "cycles (ctl (initial_world c0)) < INT_MAX"
    "at_rest (ctl (initial_world c0))"
    by (simp_all add: c0_def sample_world)
  note t = six_transitions_per_cycle [OF sample_values(3,4) h, of stopped_clock 1]
  obtain c' w' where r: "compute_and_set_green 100 0 (ctl (initial_world c0)) = Some c'"
    "cycle stopped_clock 100 0 1 (initial_world c0) = Some w'"
    "phase_events (ctl (initial_world c0)) (entries_since (initial_world c0) w') =
       [((NS, GREEN), [Stdout (transition_line (stopped_clock (clock_reads (initial_world c0))) (ns c') GREEN)]),
        ((NS, YELLOW), [Stdout (transition_line (stopped_clock (clock_reads (initial_world c0) + 1)) (ns c') YELLOW)]),
        ((NS, RED), [Stdout (transition_line (stopped_clock (clock_reads (initial_world c0) + 2)) (ns c') RED)]),
        ((EW, GREEN), [Stdout (transition_line (stopped_clock (clock_reads (initial_world c0) + 3)) (ew c') GREEN)]),
        ((EW, YELLOW), [Stdout (transition_line (stopped_clock (clock_reads (initial_world c0) + 4)) (ew c') YELLOW)]),
        ((EW, RED), [Stdout (transition_line (stopped_clock (clock_reads (initial_world c0) + 5)) (ew c') RED)])]"
    using t [THEN conjunct2] by (elim exE conjE) (rule that)
  note a = sample_allocation [OF h(1) r(1)]
  have "phase_events c0 (entries_since (initial_world c0) w') =
        [((NS, GREEN), [Stdout (''[09:05:07] North-South -> GREEN (will last 40s)'' @ newline)]),
         ((NS, YELLOW), [Stdout (''[09:05:07] North-South -> YELLOW (will last 3s)'' @ newline)]),
         ((NS, RED),
          [Stdout (''[09:05:07] North-South -> RED (will last until other gets greens)'' @ newline)]),
         ((EW, GREEN), [Stdout (''[09:05:07] East-West -> GREEN (will last 5s)'' @ newline)]),
         ((EW, YELLOW), [Stdout (''[09:05:07] East-West -> YELLOW (will last 3s)'' @ newline)]),
         ((EW, RED),
          [Stdout (''[09:05:07] East-West -> RED (will last until other gets greens)'' @ newline)])]"
    using r(3)
    by (simp add: a initial_world_simps transition_line_def sample_strings)
       (simp add: c0_def new_controller_fields sample_strings)
  then show ?thesis
    using t [THEN conjunct1] r(2) h
    by (simp add: sample_values c0_def initial_world_simps new_controller_fields numeral_2_eq_2)
qed

subsection \<open>C5\<close>

text \<open>
  C5: when the two densities sum to zero, the allocation gives both directions
  \<open>min_green\<close>, whatever \<open>min_green\<close> and \<open>max_green\<close> are, also where
  \<open>max_green < min_green\<close>; nothing else of the controller changes. In particular
  \<open>allocate 0 0 5 40\<close> is \<open>(5, 5)\<close>.
\<close>

theorem zero_density_gives_min_green:
  assumes "int_range ns_density" and "int_range ew_density"
    and "ns_density + ew_density = 0"
  shows "compute_and_set_green ns_density ew_density c =
      Some (c\<lparr>ns := (ns c)\<lparr>green_duration := min_green c\<rparr>,
              ew := (ew c)\<lparr>green_duration := min_green c\<rparr>\<rparr>) \<and>
    allocate ns_density ew_density minG maxG = Some (minG, minG)"
  using assms
  by (simp add: compute_and_set_green_zero allocate_def) (simp add: IntersectionController_new_def Let_def)

theorem zero_density_gives_min_green_witness:
  "int_range 0 \<and> (0::int) + 0 = 0 \<and> allocate 0 0 5 40 = Some (5, 5) \<and>
   allocate (- 7) 7 40 5 = Some (40, 40)"
proof -
  have r: "int_range 0" "int_range (- 7)" "int_range 7"
    by (simp_all add: int_range_def INT_MIN_def INT_MAX_def)
  show ?thesis
    using zero_density_gives_min_green [of 0 0 "IntersectionController_new 5 40 3 1 5 True" 5 40]
      zero_density_gives_min_green [of "- 7" 7 "IntersectionController_new 40 5 3 1 5 True" 40 5] r
    by simp
qed

subsection \<open>C6\<close>

text \<open>
  C6: in a run that starts with both lights red, every statement leaves at most one
  direction out of the red phase, and a light is switched to green only while both
  lights are red; the run ends with both lights red. Within each cycle the phases of the
  two lights pass through green, yellow and red for North-South with East-West red,
  then through the same for East-West with North-South red; the transition of a direction
  to red and the wait of \<open>all_red_time\<close> that follows it leave both lights red
  before the other direction is given green.
\<close>

theorem never_both_directions_open:
  assumes "valid_density ns_density" and "valid_density ew_density"
    and "valid_configuration (ctl w)" and "cycles (ctl w) < INT_MAX"
    and "at_rest (ctl w)"
  shows "(\<exists>w'. simulate_with_inputs clk ns_density ew_density w = Some w' \<and>
            at_rest (ctl w') \<and>
            (\<forall>(s, c) \<in> set (since w w'). one_direction_at_most c) \<and>
            green_only_from_rest (ctl w) (since w w')) \<and>
         (\<exists>w'. cycle clk ns_density ew_density k w = Some w' \<and>
            map (phases \<circ> snd) (since w w') =
              [(RED, RED), (RED, RED),
               (GREEN, RED), (GREEN, RED), (YELLOW, RED), (YELLOW, RED), (RED, RED), (RED, RED),
               (RED, GREEN), (RED, GREEN), (RED, YELLOW), (RED, YELLOW), (RED, RED), (RED, RED),
               (RED, RED)])"
proof -
  define N where "N = cycles (ctl w)"
  define Q :: "int \<Rightarrow> (stmt \<times> IntersectionController) list \<Rightarrow> bool"
    where "Q = (\<lambda>k t. t \<noteq> [] \<and> at_rest (snd (last t)) \<and>
                 (\<forall>(s, c) \<in> set t. one_direction_at_most c) \<and>
                 (\<forall>c0. green_only_from_rest c0 t))"
  define P :: "int \<Rightarrow> (stmt \<times> IntersectionController) list \<Rightarrow> bool"
    where "P = (\<lambda>k t. (\<forall>(s, c) \<in> set t. one_direction_at_most c) \<and>
                 (\<forall>c0. at_rest c0 \<longrightarrow> green_only_from_rest c0 t))"
  have "\<exists>w'. simulate_with_inputs clk ns_density ew_density w = Some w' \<and>
           at_rest (ctl w') \<and> valid_configuration (ctl w') \<and> cycles (ctl w') = N \<and>
           (\<exists>t. trace w' = trace w @ (PrintSimulating, ctl w) # t \<and> P 1 t)"
  proof (rule simulate_with_inputs_rule [where I = "\<lambda>k. at_rest" and Q = Q and P = P and N = N])
    show "at_rest (with_phase EW RED (with_phase NS RED c')) \<and>
          Q k (cycle_trace ns_density ew_density k c c')"
      if "at_rest c" "compute_and_set_green ns_density ew_density c = Some c'" for k c c'
    proof -
      note f = compute_and_set_green_frame(1,2) [OF that(2)]
      note t = cycle_trace_one_direction [OF that(1) f]
      have "cycle_trace ns_density ew_density k c c' \<noteq> []" by (simp add: cycle_trace_def)
      then show ?thesis using t by (simp add: Q_def at_rest_after_cycle)
    qed
    show "P k []" for k by (simp add: P_def)
    show "P k (t @ u)" if "Q k t" "P (k + 1) u" for k t u
      using that by (auto simp: P_def Q_def green_only_from_rest_append)
  qed (use assms in \<open>simp_all add: N_def\<close>)
  then obtain w' t where w': "simulate_with_inputs clk ns_density ew_density w = Some w'"
    "at_rest (ctl w')" "trace w' = trace w @ (PrintSimulating, ctl w) # t" "P 1 t"
    by blast
  have s: "since w w' = (PrintSimulating, ctl w) # t" using w'(3) by (rule since_append)
  have "one_direction_at_most (ctl w)"
    using assms(5) by (simp add: at_rest_def one_direction_at_most_def)
  then have run: "\<exists>w'. simulate_with_inputs clk ns_density ew_density w = Some w' \<and>
            at_rest (ctl w') \<and>
            (\<forall>(s, c) \<in> set (since w w'). one_direction_at_most c) \<and>
            green_only_from_rest (ctl w) (since w w')"
    using w' assms(5) by (auto simp: s P_def)
  obtain c' where c': "compute_and_set_green ns_density ew_density (ctl w) = Some c'"
    using compute_and_set_green_valid [OF assms(1-3)] by metis
  note f = compute_and_set_green_frame(1,2) [OF c']
  obtain w1 where w1: "cycle clk ns_density ew_density k w = Some w1"
    "trace w1 = trace w @ cycle_trace ns_density ew_density k (ctl w) c'"
    using cycle_result [OF c'] by blast
  have "since w w1 = cycle_trace ns_density ew_density k (ctl w) c'"
    using w1(2) by (rule since_append)
  then have "map (phases \<circ> snd) (since w w1) =
              [(RED, RED), (RED, RED),
               (GREEN, RED), (GREEN, RED), (YELLOW, RED), (YELLOW, RED), (RED, RED), (RED, RED),
               (RED, GREEN), (RED, GREEN), (RED, YELLOW), (RED, YELLOW), (RED, RED), (RED, RED),
               (RED, RED)]"
    using assms(5) f by (simp add: cycle_trace_def phases_def with_phase_state at_rest_def)
  with w1(1) have "\<exists>w'. cycle clk ns_density ew_density k w = Some w' \<and>
            map (phases \<circ> snd) (since w w') =
              [(RED, RED), (RED, RED),
               (GREEN, RED), (GREEN, RED), (YELLOW, RED), (YELLOW, RED), (RED, RED), (RED, RED),
               (RED, GREEN), (RED, GREEN), (RED, YELLOW), (RED, YELLOW), (RED, RED), (RED, RED),
               (RED, RED)]"
    by (intro exI [of _ w1] conjI)
  with run show ?thesis by (rule conjI)
qed

theorem never_both_directions_open_witness:
  "valid_density 10 \<and> valid_density 20 \<and>
   valid_configuration (ctl (initial_world (IntersectionController_new 5 40 3 1 2 False))) \<and>
   cycles (ctl (initial_world (IntersectionController_new 5 40 3 1 2 False))) < INT_MAX \<and>
   at_rest (ctl (initial_world (IntersectionController_new 5 40 3 1 2 False))) \<and>
   (\<exists>w'. simulate_with_inputs stopped_clock 10 20
            (initial_world (IntersectionController_new 5 40 3 1 2 False)) = Some w' \<and>
      at_rest (ctl w') \<and>
      (\<forall>(s, c) \<in> set (since (initial_world (IntersectionController_new 5 40 3 1 2 False)) w').
         one_direction_at_most c) \<and>
      green_only_from_rest (IntersectionController_new 5 40 3 1 2 False)
        (since (initial_world (IntersectionController_new 5 40 3 1 2 False)) w')) \<and>
   (\<exists>w'. cycle stopped_clock 10 20 1
            (initial_world (IntersectionController_new 5 40 3 1 2 False)) = Some w' \<and>
      map (phases \<circ> snd) (since (initial_world (IntersectionController_new 5 40 3 1 2 False)) w') =
        [(RED, RED), (RED, RED),
         (GREEN, RED), (GREEN, RED), (YELLOW, RED), (YELLOW, RED), (RED, RED), (RED, RED),
         (RED, GREEN), (RED, GREEN), (RED, YELLOW), (RED, YELLOW), (RED, RED), (RED, RED),
         (RED, RED)])"
  using never_both_directions_open [OF sample_values(1,2) sample_world(1,2,3),
      of stopped_clock 1]
  by (simp add: sample_values sample_controller initial_world_simps)

subsection \<open>C7\<close>

text \<open>
  C7, counterexample: with \<open>yellow_time = 0\<close>, in fast mode, a cycle neither writes
  a line nor sleeps after the two transitions to yellow: \<open>wait_and_print\<close> is called
  with the duration 0 and returns at once, as it does for every duration that is not
  positive.
\<close>

theorem no_notification_for_zero_duration:
  "map_option (output_since (initial_world (IntersectionController_new 5 40 0 1 1 False)))
     (cycle stopped_clock 100 0 1 (initial_world (IntersectionController_new 5 40 0 1 1 False))) =
   Some [(PrintCycle 1, [Stdout (''=== Cycle 1 ==='' @ newline)]),
         (ComputeAndSetGreen 100 0, []),
         (SetAndPrint NS GREEN,
          [Stdout (''[09:05:07] North-South -> GREEN (will last 40s)'' @ newline)]),
         (WaitAndPrint 40, [Stdout (''   (simulated 40s)'' @ newline)]),
         (SetAndPrint NS YELLOW,
          [Stdout (''[09:05:07] North-South -> YELLOW (will last 0s)'' @ newline)]),
         (WaitAndPrint 0, []),
         (SetAndPrint NS RED,
          [Stdout (''[09:05:07] North-South -> RED (will last until other gets greens)'' @ newline)]),
         (WaitAndPrint 1, [Stdout (''   (simulated 1s)'' @ newline)]),
         (SetAndPrint EW GREEN,
          [Stdout (''[09:05:07] East-West -> GREEN (will last 5s)'' @ newline)]),
         (WaitAndPrint 5, [Stdout (''   (simulated 5s)'' @ newline)]),
         (SetAndPrint EW YELLOW,
          [Stdout (''[09:05:07] East-West -> YELLOW (will last 0s)'' @ newline)]),
         (WaitAndPrint 0, []),
         (SetAndPrint EW RED,
          [Stdout (''[09:05:07] East-West -> RED (will last until other gets greens)'' @ newline)]),
         (WaitAndPrint 1, [Stdout (''   (simulated 1s)'' @ newline)]),
         (PrintNewline, [Stdout newline])]"
proof -
  define c0 where "c0 = IntersectionController_new 5 40 0 1 1 False"
  define c1 where "c1 = c0\<lparr>ns := (ns c0)\<lparr>green_duration := 40, yellow_duration := 0\<rparr>,
                           ew := (ew c0)\<lparr>green_duration := 5, yellow_duration := 0\<rparr>\<rparr>"
  have v: "valid_configuration c0"
    by (simp add: c0_def valid_configuration_new int_range_def INT_MIN_def INT_MAX_def)
  have "compute_and_set_green 100 0 (ctl (initial_world c0)) = Some c1"
    using compute_all_to_ns [OF v]
    by (simp add: initial_world_simps c1_def) (simp add: c0_def new_controller_fields)
  from cycle_history [OF this, of stopped_clock 1]
  show ?thesis
    unfolding c0_def [symmetric]
    by (auto simp: output_since_def entries_since_def initial_world_simps waited_def
        transition_line_def sample_strings c1_def)
       (simp_all add: c0_def new_controller_fields sample_strings)
qed

text \<open>
  C7, as amended: in every cycle each of the six phase transitions is followed at once
  by exactly one call of \<open>wait_and_print\<close>, with the green duration just computed
  for the direction after its transition to green, with \<open>yellow_time\<close> after a
  transition to yellow and with \<open>all_red_time\<close> after a transition to red. For a
  positive duration the call sleeps once for that duration in real-time mode, and writes
  once the line \<open>(simulated Ns)\<close> in fast mode; for a duration that is not positive
  it does neither. Nothing else is written or slept in a cycle but its banner, the six
  lines of the transitions and the empty line that ends it.
\<close>

theorem wait_after_each_transition:
  assumes "valid_density ns_density" and "valid_density ew_density"
    and "valid_configuration (ctl w)" and "yellow_fixed (ctl w)"
  shows "\<exists>c' w'. compute_and_set_green ns_density ew_density (ctl w) = Some c' \<and>
    cycle clk ns_density ew_density k w = Some w' \<and>
    (let notified = (\<lambda>seconds.
           if seconds \<le> 0 then []
           else if realtime_delay (ctl w) then [SleepFor seconds]
           else [Stdout (''   (simulated '' @ string_of_int seconds @ ''s)'' @ newline)])
     in output_since w w' =
      [(PrintCycle k, [Stdout (''=== Cycle '' @ string_of_int k @ '' ==='' @ newline)]),
       (ComputeAndSetGreen ns_density ew_density, []),
       (SetAndPrint NS GREEN, [Stdout (transition_line (clk (clock_reads w)) (ns c') GREEN)]),
       (WaitAndPrint (green_duration (ns c')), notified (green_duration (ns c'))),
       (SetAndPrint NS YELLOW, [Stdout (transition_line (clk (clock_reads w + 1)) (ns c') YELLOW)]),
       (WaitAndPrint (yellow_time (ctl w)), notified (yellow_time (ctl w))),
       (SetAndPrint NS RED, [Stdout (transition_line (clk (clock_reads w + 2)) (ns c') RED)]),
       (WaitAndPrint (all_red_time (ctl w)), notified (all_red_time (ctl w))),
       (SetAndPrint EW GREEN, [Stdout (transition_line (clk (clock_reads w + 3)) (ew c') GREEN)]),
       (WaitAndPrint (green_duration (ew c')), notified (green_duration (ew c'))),
       (SetAndPrint EW YELLOW, [Stdout (transition_line (clk (clock_reads w + 4)) (ew c') YELLOW)]),
       (WaitAndPrint (yellow_time (ctl w)), notified (yellow_time (ctl w))),
       (SetAndPrint EW RED, [Stdout (transition_line (clk (clock_reads w + 5)) (ew c') RED)]),
       (WaitAndPrint (all_red_time (ctl w)), notified (all_red_time (ctl w))),
       (PrintNewline, [Stdout newline])])"
proof -
  obtain c' where c': "compute_and_set_green ns_density ew_density (ctl w) = Some c'"
    using compute_and_set_green_valid [OF assms(1-3)] by metis
  note f = compute_and_set_green_frame [OF c']
  have y: "yellow_duration (ns c') = yellow_time (ctl w)"
    "yellow_duration (ew c') = yellow_time (ctl w)"
    using f(11,12) assms(4) by (auto simp: yellow_fixed_def)
  show ?thesis
    using cycle_history [OF c', of clk k] c'
    by (auto simp: output_since_def entries_since_def Let_def waited_def y f(8,10))
qed


theorem wait_after_each_transition_witness:
  "valid_density 100 \<and> valid_density 0 \<and>
   valid_configuration (ctl (initial_world (IntersectionController_new 5 40 3 1 2 False))) \<and>
   yellow_fixed (ctl (initial_world (IntersectionController_new 5 40 3 1 2 False))) \<and>
   (\<exists>w'. cycle stopped_clock 100 0 1
            (initial_world (IntersectionController_new 5 40 3 1 2 False)) = Some w' \<and>
      output_since (initial_world (IntersectionController_new 5 40 3 1 2 False)) w' =
        [(PrintCycle 1, [Stdout (''=== Cycle 1 ==='' @ newline)]),
         (ComputeAndSetGreen 100 0, []),
         (SetAndPrint NS GREEN,
          [Stdout (''[09:05:07] North-South -> GREEN (will last 40s)'' @ newline)]),
         (WaitAndPrint 40, [Stdout (''   (simulated 40s)'' @ newline)]),
         (SetAndPrint NS YELLOW,
          [Stdout (''[09:05:07] North-South -> YELLOW (will last 3s)'' @ newline)]),
         (WaitAndPrint 3, [Stdout (''   (simulated 3s)'' @ newline)]),
         (SetAndPrint NS RED,
          [Stdout (''[09:05:07] North-South -> RED (will last until other gets greens)'' @ newline)]),
         (WaitAndPrint 1, [Stdout (''   (simulated 1s)'' @ newline)]),
         (SetAndPrint EW GREEN,
          [Stdout (''[09:05:07] East-West -> GREEN (will last 5s)'' @ newline)]),
         (WaitAndPrint 5, [Stdout (''   (simulated 5s)'' @ newline)]),
         (SetAndPrint EW YELLOW,
          [Stdout (''[09:05:07] East-West -> YELLOW (will last 3s)'' @ newline)]),
         (WaitAndPrint 3, [Stdout (''   (simulated 3s)'' @ newline)]),
         (SetAndPrint EW RED,
          [Stdout (''[09:05:07] East-West -> RED (will last until other gets greens)'' @ newline)]),
         (WaitAndPrint 1, [Stdout (''   (simulated 1s)'' @ newline)]),
         (PrintNewline, [Stdout newline])])"
proof -
  define c0 where "c0 = IntersectionController_new 5 40 3 1 2 False"
  have h: "valid_configuration (ctl (initial_world c0))" "yellow_fixed (ctl (initial_world c0))"
    by (simp_all add: c0_def sample_world)
  obtain c' w' where r: "compute_and_set_green 100 0 (ctl (initial_world c0)) = Some c'"
    "cycle stopped_clock 100 0 1 (initial_world c0) = Some w'"
    and o: "let notified = (\<lambda>seconds.
           if seconds \<le> 0 then []
           else if realtime_delay (ctl (initial_world c0)) then [SleepFor seconds]
           else [Stdout (''   (simulated '' @ string_of_int seconds @ ''s)'' @ newline)])
     in output_since (initial_world c0) w' =
      [(PrintCycle 1, [Stdout (''=== Cycle '' @ string_of_int 1 @ '' ==='' @ newline)]),
       (ComputeAndSetGreen 100 0, []),
       (SetAndPrint NS GREEN, [Stdout (transition_line (stopped_clock (clock_reads (initial_world c0))) (ns c') GREEN)]),
       (WaitAndPrint (green_duration (ns c')), notified (green_duration (ns c'))),
       (SetAndPrint NS YELLOW, [Stdout (transition_line (stopped_clock (clock_reads (initial_world c0) + 1)) (ns c') YELLOW)]),
       (WaitAndPrint (yellow_time (ctl (initial_world c0))), notified (yellow_time (ctl (initial_world c0)))),
       (SetAndPrint NS RED, [Stdout (transition_line (stopped_clock (clock_reads (initial_world c0) + 2)) (ns c') RED)]),
       (WaitAndPrint (all_red_time (ctl (initial_world c0))), notified (all_red_time (ctl (initial_world c0)))),
       (SetAndPrint EW GREEN, [Stdout (transition_line (stopped_clock (clock_reads (initial_world c0) + 3)) (ew c') GREEN)]),
       (WaitAndPrint (green_duration (ew c')), notified (green_duration (ew c'))),
       (SetAndPrint EW YELLOW, [Stdout (transition_line (stopped_clock (clock_reads (initial_world c0) + 4)) (ew c') YELLOW)]),
       (WaitAndPrint (yellow_time (ctl (initial_world c0))), notified (yellow_time (ctl (initial_world c0)))),
       (SetAndPrint EW RED, [Stdout (transition_line (stopped_clock (clock_reads (initial_world c0) + 5)) (ew c') RED)]),
       (WaitAndPrint (all_red_time (ctl (initial_world c0))), notified (all_red_time (ctl (initial_world c0)))),
       (PrintNewline, [Stdout newline])]"
    using wait_after_each_transition [OF sample_values(3,4) h, of stopped_clock 1]
    by (elim exE conjE) (rule that)
  note a = sample_allocation [OF h(1) r(1)]
  have "output_since (initial_world c0) w' =
        [(PrintCycle 1, [Stdout (''=== Cycle 1 ==='' @ newline)]),
         (ComputeAndSetGreen 100 0, []),
         (SetAndPrint NS GREEN,
          [Stdout (''[09:05:07] North-South -> GREEN (will last 40s)'' @ newline)]),
         (WaitAndPrint 40, [Stdout (''   (simulated 40s)'' @ newline)]),
         (SetAndPrint NS YELLOW,
          [Stdout (''[09:05:07] North-South -> YELLOW (will last 3s)'' @ newline)]),
         (WaitAndPrint 3, [Stdout (''   (simulated 3s)'' @ newline)]),
         (SetAndPrint NS RED,
          [Stdout (''[09:05:07] North-South -> RED (will last until other gets greens)'' @ newline)]),
         (WaitAndPrint 1, [Stdout (''   (simulated 1s)'' @ newline)]),
         (SetAndPrint EW GREEN,
          [Stdout (''[09:05:07] East-West -> GREEN (will last 5s)'' @ newline)]),
         (WaitAndPrint 5, [Stdout (''   (simulated 5s)'' @ newline)]),
         (SetAndPrint EW YELLOW,
          [Stdout (''[09:05:07] East-West -> YELLOW (will last 3s)'' @ newline)]),
         (WaitAndPrint 3, [Stdout (''   (simulated 3s)'' @ newline)]),
         (SetAndPrint EW RED,
          [Stdout (''[09:05:07] East-West -> RED (will last until other gets greens)'' @ newline)]),
         (WaitAndPrint 1, [Stdout (''   (simulated 1s)'' @ newline)]),
         (PrintNewline, [Stdout newline])]"
    using o
    by (simp add: Let_def a initial_world_simps transition_line_def sample_strings)
       (simp add: c0_def new_controller_fields sample_strings)
  then show ?thesis
    using r(2) h by (simp add: sample_values c0_def initial_world_simps)
qed

subsection \<open>C8\<close>

text \<open>
  C8: the constructor sets the yellow duration of both lights to the configured
  \<open>yellow_time\<close>, and in a run that starts so every statement leaves the yellow
  durations and \<open>yellow_time\<close> as they were.
\<close>

theorem yellow_duration_constant:
  assumes "valid_density ns_density" and "valid_density ew_density"
    and "valid_configuration (ctl w)" and "cycles (ctl w) < INT_MAX"
    and "yellow_fixed (ctl w)"
  shows "yellow_fixed (IntersectionController_new minG maxG yellow allred cycles0 realtime) \<and>
    yellow_time (IntersectionController_new minG maxG yellow allred cycles0 realtime) = yellow \<and>
    (\<exists>w'. simulate_with_inputs clk ns_density ew_density w = Some w' \<and>
       yellow_fixed (ctl w') \<and> yellow_time (ctl w') = yellow_time (ctl w) \<and>
       (\<forall>(s, c) \<in> set (since w w').
          yellow_duration (ns c) = yellow_time (ctl w) \<and>
          yellow_duration (ew c) = yellow_time (ctl w) \<and>
          yellow_time c = yellow_time (ctl w)))"
proof -
  define N where "N = cycles (ctl w)"
  define Y where "Y = yellow_time (ctl w)"
  define I :: "int \<Rightarrow> IntersectionController \<Rightarrow> bool"
    where "I = (\<lambda>k c. yellow_duration (ns c) = Y \<and> yellow_duration (ew c) = Y \<and>
                 yellow_time c = Y)"
  define P :: "int \<Rightarrow> (stmt \<times> IntersectionController) list \<Rightarrow> bool"
    where "P = (\<lambda>k t. \<forall>(s, c) \<in> set t. I k c)"
  have I_const: "I k c = I j c" for k j c by (simp add: I_def)
  have "\<exists>w'. simulate_with_inputs clk ns_density ew_density w = Some w' \<and>
           I (max 1 (N + 1)) (ctl w') \<and> valid_configuration (ctl w') \<and> cycles (ctl w') = N \<and>
           (\<exists>t. trace w' = trace w @ (PrintSimulating, ctl w) # t \<and> P 1 t)"
  proof (rule simulate_with_inputs_rule [where I = I and Q = P and P = P and N = N])
    show "I (k + 1) (with_phase EW RED (with_phase NS RED c')) \<and>
          P k (cycle_trace ns_density ew_density k c c')"
      if "I k c" "compute_and_set_green ns_density ew_density c = Some c'" for k c c'
    proof -
      note f = compute_and_set_green_frame(7,11,12) [OF that(2)]
      have "I k c'" using that(1) f by (auto simp: I_def)
      then show ?thesis using that(1)
        by (simp add: P_def I_def cycle_trace_def with_phase_fields)
    qed
    show "P k []" for k by (simp add: P_def)
    show "P k (t @ u)" if "P k t" "P (k + 1) u" for k t u
      using that by (auto simp: P_def I_def)
    show "I 1 (ctl w)" using assms(5) by (simp add: I_def Y_def yellow_fixed_def)
  qed (use assms in \<open>simp_all add: N_def\<close>)
  then obtain w' t where w': "simulate_with_inputs clk ns_density ew_density w = Some w'"
    "I (max 1 (N + 1)) (ctl w')" "trace w' = trace w @ (PrintSimulating, ctl w) # t" "P 1 t"
    by blast
  have s: "since w w' = (PrintSimulating, ctl w) # t" using w'(3) by (rule since_append)
  have "I 1 (ctl w)" using assms(5) by (simp add: I_def Y_def yellow_fixed_def)
  then have "\<forall>(s, c) \<in> set (since w w').
          yellow_duration (ns c) = yellow_time (ctl w) \<and>
          yellow_duration (ew c) = yellow_time (ctl w) \<and>
          yellow_time c = yellow_time (ctl w)"
    using w'(4) by (auto simp: s P_def I_def Y_def)
  moreover have "yellow_fixed (ctl w')" "yellow_time (ctl w') = yellow_time (ctl w)"
    using w'(2) by (simp_all add: I_def Y_def yellow_fixed_def)
  moreover have
    "yellow_fixed (IntersectionController_new minG maxG yellow allred cycles0 realtime)"
    "yellow_time (IntersectionController_new minG maxG yellow allred cycles0 realtime) = yellow"
    by (simp_all add: yellow_fixed_def IntersectionController_new_def Let_def)
  ultimately show ?thesis using w'(1) by blast
qed

theorem yellow_duration_constant_witness:
  "valid_density 10 \<and> valid_density 20 \<and>
   valid_configuration (ctl (initial_world (IntersectionController_new 5 40 3 1 2 False))) \<and>
   cycles (ctl (initial_world (IntersectionController_new 5 40 3 1 2 False))) < INT_MAX \<and>
   yellow_fixed (ctl (initial_world (IntersectionController_new 5 40 3 1 2 False))) \<and>
   (\<exists>w'. simulate_with_inputs stopped_clock 10 20
            (initial_world (IntersectionController_new 5 40 3 1 2 False)) = Some w' \<and>
      yellow_fixed (ctl w') \<and> yellow_time (ctl w') = 3 \<and>
      (\<forall>(s, c) \<in> set (since (initial_world (IntersectionController_new 5 40 3 1 2 False)) w').
         yellow_duration (ns c) = 3 \<and> yellow_duration (ew c) = 3 \<and> yellow_time c = 3))"
  using yellow_duration_constant [OF sample_values(1,2) sample_world(1,2,4),
      of 5 40 3 1 2 False stopped_clock]
  by (simp add: sample_values sample_controller initial_world_simps new_controller_fields)

subsection \<open>C9\<close>

text \<open>
  C9: the line \<open>set_and_print\<close> writes is the time of day as \<open>[HH:MM:SS]\<close>, the
  name of the light, \<open>->\<close>, the name of the phase, and \<open>(will last Ns)\<close>, where
  \<open>N\<close> is the green duration of the light for a transition to green, its yellow
  duration for a transition to yellow, and the words \<open>until other gets green\<close> for a
  transition to red.
\<close>

theorem transition_line_format:
  "map outs (history (set_and_print clk r s w)) =
     map outs (history w) @
     [[Stdout (''['' @ two_digits (tm_hour (clk (clock_reads w))) @ '':'' @
                 two_digits (tm_min (clk (clock_reads w))) @ '':'' @
                 two_digits (tm_sec (clk (clock_reads w))) @ ''] '' @
               name (light r (ctl w)) @ '' -> '' @
               (case s of RED \<Rightarrow> ''RED'' | GREEN \<Rightarrow> ''GREEN'' | YELLOW \<Rightarrow> ''YELLOW'') @
               '' (will last '' @
               (case s of
                  GREEN \<Rightarrow> string_of_int (green_duration (light r (ctl w)))
                | YELLOW \<Rightarrow> string_of_int (yellow_duration (light r (ctl w)))
                | RED \<Rightarrow> ''until other gets green'') @
               ''s)'' @ newline)]]"
proof -
  have n: "name (light r (light_update r (\<lambda>l. l\<lparr>state := p\<rparr>) c)) = name (light r c)"
    "green_duration (light r (light_update r (\<lambda>l. l\<lparr>state := p\<rparr>) c)) = green_duration (light r c)"
    "yellow_duration (light r (light_update r (\<lambda>l. l\<lparr>state := p\<rparr>) c)) = yellow_duration (light r c)"
    for c p by (cases r; simp)+
  show ?thesis
    by (cases s)
       (simp_all add: set_and_print_def Let_def emit_def setw_current_time_str n,
        simp_all add: current_time_str_def)
qed

theorem transition_line_format_witness:
  "map outs (history (set_and_print stopped_clock NS GREEN
      (initial_world (IntersectionController_new 5 40 3 1 1 False)))) =
     [[Stdout (''[09:05:07] North-South -> GREEN (will last 10s)'' @ newline)]] \<and>
   map outs (history (set_and_print stopped_clock EW RED
      (initial_world (IntersectionController_new 5 40 3 1 1 False)))) =
     [[Stdout (''[09:05:07] East-West -> RED (will last until other gets greens)'' @ newline)]]"
proof -
  have d: "string_of_int 10 = ''10''" by code_simp
  show ?thesis
    using transition_line_format [of stopped_clock NS GREEN
        "initial_world (IntersectionController_new 5 40 3 1 1 False)"]
      transition_line_format [of stopped_clock EW RED
        "initial_world (IntersectionController_new 5 40 3 1 1 False)"]
    by (simp add: initial_world_simps new_controller_fields stopped_clock_def two_digits_def
        digit_chars d)
qed

subsection \<open>C10\<close>

text \<open>
  C10: a newly constructed controller has both lights red, and every cycle, whatever the
  state it starts from and whatever the densities, ends with both lights red.
\<close>

theorem both_red_at_cycle_boundaries:
  assumes "valid_density ns_density" and "valid_density ew_density"
    and "valid_configuration (ctl w)"
  shows "at_rest (IntersectionController_new minG maxG yellow allred cycles0 realtime) \<and>
    (\<exists>w'. cycle clk ns_density ew_density k w = Some w' \<and> at_rest (ctl w'))"
proof -
  obtain c' where "compute_and_set_green ns_density ew_density (ctl w) = Some c'"
    using compute_and_set_green_valid [OF assms] by metis
  then obtain w' where "cycle clk ns_density ew_density k w = Some w'"
    "ctl w' = with_phase EW RED (with_phase NS RED c')"
    using cycle_result [of ns_density ew_density w c' clk k] by blast
  then have "\<exists>w'. cycle clk ns_density ew_density k w = Some w' \<and> at_rest (ctl w')"
    by (simp add: at_rest_after_cycle)
  moreover have "at_rest (IntersectionController_new minG maxG yellow allred cycles0 realtime)"
    by (simp add: at_rest_def IntersectionController_new_def Let_def TrafficLight_new_def)
  ultimately show ?thesis by simp
qed

theorem both_red_at_cycle_boundaries_witness:
  "valid_density 10 \<and> valid_density 20 \<and>
   valid_configuration (ctl (initial_world (IntersectionController_new 5 40 3 1 2 False))) \<and>
   at_rest (IntersectionController_new 5 40 3 1 2 False) \<and>
   (\<exists>w'. cycle stopped_clock 10 20 1
            (initial_world (IntersectionController_new 5 40 3 1 2 False)) = Some w' \<and>
      at_rest (ctl w'))"
  using both_red_at_cycle_boundaries [OF sample_values(1,2) sample_world(1),
      of 5 40 3 1 2 False stopped_clock 1]
  by (simp add: sample_values sample_controller initial_world_simps)

end
